theory Spec2Isabelle
  imports Main
begin

section \<open>JavaScript values\<close>

text \<open>
  The action is TypeScript compiled to JavaScript; the types of \<open>main.ts\<close> are erased
  at run time and the model's answer is whatever \<open>JSON.parse\<close> returns. Values are
  therefore modelled untyped. Numbers are \<open>NaN\<close> or an integer: line numbers, loop
  indices and batch sizes are the only numbers the pipeline computes with.
\<close>

datatype jsnum = NaN | Num int

datatype jsval =
    Undefined
  | JNull
  | JBool bool
  | JNum jsnum
  | JStr string
  | JArr "jsval list"
  | JObj "(string \<times> jsval) list"

datatype error = TypeError | SyntaxError

text \<open>\<open>a + b\<close> and \<open>a < b\<close> on numbers: \<open>NaN\<close> is absorbing and compares false.\<close>

fun js_add :: "jsnum \<Rightarrow> jsnum \<Rightarrow> jsnum" where
  "js_add (Num a) (Num b) = Num (a + b)"
| "js_add _ _ = NaN"

fun js_lt :: "jsnum \<Rightarrow> jsnum \<Rightarrow> bool" where
  "js_lt (Num a) (Num b) = (a < b)"
| "js_lt _ _ = False"

text \<open>
  \<open>Array.prototype.slice(start, end)\<close>: each bound goes through ToIntegerOrInfinity
  (\<open>NaN\<close> becomes 0), a negative bound counts from the end, and both are clamped to
  \<open>[0, length]\<close>; an empty range gives the empty array.
\<close>

definition rel_index :: "nat \<Rightarrow> jsnum \<Rightarrow> nat" where
  "rel_index len k =
     (case k of
        NaN \<Rightarrow> 0
      | Num j \<Rightarrow> if j < 0 then nat (max (int len + j) 0) else nat (min j (int len)))"

definition slice :: "'a list \<Rightarrow> jsnum \<Rightarrow> jsnum \<Rightarrow> 'a list" where
  "slice xs start end =
     (let s = rel_index (length xs) start; e = rel_index (length xs) end
      in take (e - s) (drop s xs))"

text \<open>
  Truthiness, as \<open>if (x)\<close>, \<open>!x\<close> and \<open>x || y\<close> test it.
\<close>

fun truthy :: "jsval \<Rightarrow> bool" where
  "truthy Undefined = False"
| "truthy JNull = False"
| "truthy (JBool b) = b"
| "truthy (JNum NaN) = False"
| "truthy (JNum (Num k)) = (k \<noteq> 0)"
| "truthy (JStr s) = (s \<noteq> [])"
| "truthy (JArr _) = True"
| "truthy (JObj _) = True"

text \<open>
  Reading a property \<open>v.key\<close>. On \<open>undefined\<close> and \<open>null\<close> it throws a TypeError; on
  an object, given as the list of its properties, it is the value stored under the key,
  \<open>undefined\<close> when there is none. The
  pipeline reads only \<open>reviews\<close>, \<open>lineNumber\<close> and \<open>reviewComment\<close>, none of which
  exists on a boolean, a number, a string or an array, so those give \<open>undefined\<close>.
\<close>

fun get :: "jsval \<Rightarrow> string \<Rightarrow> error + jsval" where
  "get Undefined key = Inl TypeError"
| "get JNull key = Inl TypeError"
| "get (JObj kvs) key = (case map_of kvs key of None \<Rightarrow> Inr Undefined | Some v \<Rightarrow> Inr v)"
| "get _ key = Inr Undefined"

text \<open>
  Whether the conversion of a value to a string goes through, as a template literal
  \<open>`${v}`\<close> and \<open>Number(v)\<close> need it. An array is joined, which converts each of its
  elements in turn. An object parsed from JSON uses \<open>Object.prototype.toString\<close> unless it
  has a property of its own called \<open>toString\<close>: that one is data, not a function, and
  the conversion throws a TypeError.
\<close>

fun stringifies :: "jsval \<Rightarrow> bool" where
  "stringifies (JArr xs) = list_all stringifies xs"
| "stringifies (JObj kvs) = (map_of kvs ''toString'' = None)"
| "stringifies _ = True"

text \<open>
  \<open>Number(v)\<close>. The cases of the primitives other than strings are fixed by the language.
  An object is first converted to a string, which throws or gives \<open>[object Object]\<close>
  and so \<open>NaN\<close>; an array is joined first, which may throw as well. What the
  numeric-literal grammar makes of a string, or of a joined array, is the parameter
  \<open>coerce\<close>.
\<close>

fun Number :: "(jsval \<Rightarrow> jsnum) \<Rightarrow> jsval \<Rightarrow> error + jsnum" where
  "Number coerce Undefined = Inr NaN"
| "Number coerce JNull = Inr (Num 0)"
| "Number coerce (JBool b) = Inr (if b then Num 1 else Num 0)"
| "Number coerce (JNum k) = Inr k"
| "Number coerce (JStr s) = Inr (coerce (JStr s))"
| "Number coerce (JArr xs) =
     (if stringifies (JArr xs) then Inr (coerce (JArr xs)) else Inl TypeError)"
| "Number coerce (JObj kvs) = (if stringifies (JObj kvs) then Inr NaN else Inl TypeError)"

text \<open>
  \<open>String.prototype.trim\<close>. A character of a \<open>string\<close> stands for the code unit of the
  same number, so strings with code units from 256 on are outside the model. Of the white
  space and line terminators that \<open>trim\<close> strips, seven lie below 256: tab, line feed,
  vertical tab, form feed, carriage return, space and the no-break space U+00A0.
\<close>

definition is_white :: "char \<Rightarrow> bool" where
  "is_white c =
     (c \<in> set [CHR 0x09, CHR 0x0A, CHR 0x0B, CHR 0x0C, CHR 0x0D, CHR 0x20, CHR 0xA0])"

definition trim :: "string \<Rightarrow> string" where
  "trim s = rev (dropWhile is_white (rev (dropWhile is_white s)))"

text \<open>\<open>s.split(",")\<close>: the pieces between commas; the empty string gives one empty piece.\<close>

fun split_comma :: "string \<Rightarrow> string list" where
  "split_comma [] = [[]]"
| "split_comma (c # cs) =
     (if c = CHR '','' then [] # split_comma cs
      else (case split_comma cs of
              [] \<Rightarrow> [[c]]
            | w # ws \<Rightarrow> (c # w) # ws))"

section \<open>The diff model of \<open>parse-diff\<close>\<close>

text \<open>
  The tokenizer is an external library; the pipeline reads these fields of what it
  returns. An added or deleted line carries \<open>ln\<close>, a context line carries \<open>ln2\<close> (and
  \<open>ln1\<close>, which the pipeline never reads); a field that is absent is \<open>None\<close>.
\<close>

record Change =
  ln :: "int option"
  ln2 :: "int option"
  content :: string

record Chunk =
  chunk_content :: string
  changes :: "Change list"

record File =
  to :: "string option"
  chunks :: "Chunk list"

text \<open>
  \<open>change.ln || change.ln2\<close>, the number by which a line is addressed: \<open>ln\<close> unless it
  is absent or 0, then \<open>ln2\<close>.
\<close>

definition ln_or_ln2 :: "Change \<Rightarrow> int option" where
  "ln_or_ln2 c =
     (case ln c of
        Some k \<Rightarrow> if k \<noteq> 0 then Some k else ln2 c
      | None \<Rightarrow> ln2 c)"

text \<open>\<open>x === lineNumber\<close> for \<open>x\<close> a number or \<open>undefined\<close>: \<open>NaN\<close> equals nothing.\<close>

fun strict_eq :: "int option \<Rightarrow> jsnum \<Rightarrow> bool" where
  "strict_eq (Some a) (Num b) = (a = b)"
| "strict_eq _ _ = False"

text \<open>\<open>!file.to\<close> holds when the path is absent or empty; \<open>file.to ?? ""\<close> defaults it.\<close>

definition no_path :: "File \<Rightarrow> bool" where
  "no_path f = (case to f of None \<Rightarrow> True | Some p \<Rightarrow> p = [])"

definition path_or_empty :: "File \<Rightarrow> string" where
  "path_or_empty f = (case to f of None \<Rightarrow> [] | Some p \<Rightarrow> p)"

section \<open>Review comments and the observable trace\<close>

text \<open>
  A review comment is the object literal \<open>{ body, path, line }\<close> built by
  \<open>createComment\<close>. \<open>body\<close> is whatever the candidate's \<open>reviewComment\<close> property
  holds and \<open>line\<close> is the result of \<open>Number(...)\<close>.
\<close>

record comment =
  body :: jsval
  path :: string
  line :: jsnum

text \<open>
  What a run does to the outside world, in order: the prompts built and sent to the model
  (\<open>BuildPrompt\<close>, one per call of \<open>createPrompt\<close>), the requests to the host, the
  \<open>setTimeout\<close> suspensions, and the log lines that report a failure or a decision.
  The purely informational \<open>console.log\<close> echoes (prompt and response text, file
  lists) write no event; where producing their text can throw, the exception is part of
  the model.
\<close>

datatype event =
    BuildPrompt File Chunk
  | LogError
  | LogLineNotFound jsnum string
  | CreateReview "comment list"
  | LogSent "comment list"
  | LogFailed int
  | LogDropping
  | Sleep jsnum
  | LogUnsupported
  | LogNoDiff
  | LogFatal

section \<open>Validation: \<open>getAIResponse\<close>\<close>

text \<open>
  What the model client hands back: the request (or reading \<open>choices[0].message\<close>)
  throws, or \<open>message?.content\<close> is a string, or it is \<open>null\<close>/\<open>undefined\<close>.
\<close>

datatype completion = Rejects | Content "string option"

text \<open>
  \<open>getAIResponse\<close> from the completion on. \<open>JSON.parse\<close> is the built-in, a parameter:
  \<open>None\<close> is its SyntaxError. Everything sits in one \<open>try\<close>; the \<open>catch\<close> logs and
  returns \<open>null\<close>. The result is the raw \<open>reviews\<close> property, unchecked.
\<close>

definition getAIResponse :: "(string \<Rightarrow> jsval option) \<Rightarrow> completion \<Rightarrow> jsval \<times> event list" where
  "getAIResponse JSON_parse answer =
     (case answer of
        Rejects \<Rightarrow> (JNull, [LogError])
      | Content text \<Rightarrow>
          (let res = (case text of
                        None \<Rightarrow> ''{}''
                      | Some t \<Rightarrow> if trim t = [] then ''{}'' else trim t)
           in case JSON_parse res of
                None \<Rightarrow> (JNull, [LogError])
              | Some v \<Rightarrow>
                  (case get v ''reviews'' of
                     Inl e \<Rightarrow> (JNull, [LogError])
                   | Inr reviews \<Rightarrow> (reviews, []))))"

section \<open>Anchoring: \<open>createComment\<close>\<close>

text \<open>
  \<open>Array.prototype.flatMap\<close> with a callback that may throw: the first exception ends the
  traversal.
\<close>

fun flatMap :: "('a \<Rightarrow> error + 'b list) \<Rightarrow> 'a list \<Rightarrow> error + 'b list" where
  "flatMap g [] = Inr []"
| "flatMap g (x # xs) =
     (case g x of
        Inl e \<Rightarrow> Inl e
      | Inr ys \<Rightarrow> (case flatMap g xs of Inl e \<Rightarrow> Inl e | Inr zs \<Rightarrow> Inr (ys @ zs)))"

text \<open>
  The callback of \<open>createComment\<close> in \<open>main.ts\<close>: nothing for a file without a path,
  otherwise one comment built from the two properties of the candidate. Reading a
  property of \<open>null\<close> throws, and so may \<open>Number\<close>.
\<close>

definition comment_of :: "(jsval \<Rightarrow> jsnum) \<Rightarrow> File \<Rightarrow> jsval \<Rightarrow> error + comment list" where
  "comment_of coerce file aiResponse =
     (if no_path file then Inr []
      else
        (case get aiResponse ''reviewComment'' of
           Inl e \<Rightarrow> Inl e
         | Inr text \<Rightarrow>
             (case get aiResponse ''lineNumber'' of
                Inl e \<Rightarrow> Inl e
              | Inr number \<Rightarrow>
                  (case Number coerce number of
                     Inl e \<Rightarrow> Inl e
                   | Inr lineNumber \<Rightarrow>
                       Inr [\<lparr>body = text, path = path_or_empty file, line = lineNumber\<rparr>]))))"

text \<open>
  \<open>createComment\<close> of \<open>main.ts\<close>. Only an array has \<open>flatMap\<close>; on any other value
  the call throws a TypeError. The \<open>chunk\<close> parameter is not used.
\<close>

definition createComment ::
  "(jsval \<Rightarrow> jsnum) \<Rightarrow> File \<Rightarrow> Chunk \<Rightarrow> jsval \<Rightarrow> error + comment list" where
  "createComment coerce file chunk aiResponses =
     (case aiResponses of
        JArr rs \<Rightarrow> flatMap (comment_of coerce file) rs
      | _ \<Rightarrow> Inl TypeError)"

subsection \<open>The sibling variant with line lookup and escaping\<close>

text \<open>
  A second copy of the action in the repository has a \<open>createComment\<close> that looks the
  line up in the hunk and escapes the body with \<open>escapeSpecialChars\<close>. Each
  \<open>replace(/c/g, r)\<close> of a single character is a pass over the string.
\<close>

definition replace_all :: "char \<Rightarrow> string \<Rightarrow> string \<Rightarrow> string" where
  "replace_all c r s = concat (map (\<lambda>x. if x = c then r else [x]) s)"

definition escapeSpecialChars :: "string \<Rightarrow> string" where
  "escapeSpecialChars text =
     replace_all (CHR 0x09) [CHR 0x5C, CHR ''t'']
       (replace_all (CHR 0x0D) [CHR 0x5C, CHR ''r'']
         (replace_all (CHR 0x0A) [CHR 0x5C, CHR ''n'']
           (replace_all (CHR 0x27) [CHR 0x5C, CHR 0x27]
             (replace_all (CHR 0x22) [CHR 0x5C, CHR 0x22]
               (replace_all (CHR 0x5C) [CHR 0x5C, CHR 0x5C] text)))))"

text \<open>
  The callback of the variant. It returns the comments together with the log lines it
  wrote. \<open>text.replace\<close> exists on strings only, so any other \<open>reviewComment\<close> throws.
\<close>

definition anchored_comment_of ::
  "(jsval \<Rightarrow> jsnum) \<Rightarrow> File \<Rightarrow> Chunk \<Rightarrow> jsval \<Rightarrow> error + (comment list \<times> event list)" where
  "anchored_comment_of coerce file chunk aiResponse =
     (if no_path file then Inr ([], [])
      else
        (case get aiResponse ''lineNumber'' of
           Inl e \<Rightarrow> Inl e
         | Inr number \<Rightarrow>
             (case Number coerce number of
                Inl e \<Rightarrow> Inl e
              | Inr lineNumber \<Rightarrow>
                  if \<not> list_ex (\<lambda>change. strict_eq (ln_or_ln2 change) lineNumber)
                           (changes chunk)
                  then Inr ([], [LogLineNotFound lineNumber (path_or_empty file)])
                  else
                    (case get aiResponse ''reviewComment'' of
                       Inl e \<Rightarrow> Inl e
                     | Inr (JStr text) \<Rightarrow>
                         Inr ([\<lparr>body = JStr (escapeSpecialChars text),
                                path = path_or_empty file, line = lineNumber\<rparr>], [])
                     | Inr _ \<Rightarrow> Inl TypeError))))"

text \<open>The \<open>flatMap\<close> of the variant, with the log lines collected in order.\<close>

fun flatMap_log ::
  "('a \<Rightarrow> error + ('b list \<times> event list)) \<Rightarrow> 'a list \<Rightarrow> error + ('b list \<times> event list)" where
  "flatMap_log g [] = Inr ([], [])"
| "flatMap_log g (x # xs) =
     (case g x of
        Inl e \<Rightarrow> Inl e
      | Inr (ys, log) \<Rightarrow>
          (case flatMap_log g xs of
             Inl e \<Rightarrow> Inl e
           | Inr (zs, log') \<Rightarrow> Inr (ys @ zs, log @ log')))"

definition createComment_anchored ::
  "(jsval \<Rightarrow> jsnum) \<Rightarrow> File \<Rightarrow> Chunk \<Rightarrow> jsval \<Rightarrow> error + (comment list \<times> event list)" where
  "createComment_anchored coerce file chunk aiResponses =
     (case aiResponses of
        JArr rs \<Rightarrow> flatMap_log (anchored_comment_of coerce file chunk) rs
      | _ \<Rightarrow> Inl TypeError)"

section \<open>The per-hunk loop: \<open>analyzeCode\<close>\<close>

text \<open>
  The accumulator of \<open>analyzeCode\<close>: the comments collected, the trace, and the number
  of calls made to the model so far. \<open>model k\<close> is the completion of the \<open>k\<close>-th call.
\<close>

record analysis =
  collected :: "comment list"
  trace :: "event list"
  calls :: nat

text \<open>
  The body of the inner loop for one hunk. After the answer has come back the loop echoes
  prompt and response; the echo of the response is the template literal
  \<open>`Response: ${aiResponse}`\<close>, whose conversion of the response to a string may
  throw. Neither that exception nor one of \<open>createComment\<close> is caught here; either
  leaves \<open>analyzeCode\<close> with the trace written so far.
\<close>

definition analyze_chunk ::
  "(string \<Rightarrow> jsval option) \<Rightarrow> (jsval \<Rightarrow> jsnum) \<Rightarrow> (nat \<Rightarrow> completion) \<Rightarrow> File \<Rightarrow> Chunk
     \<Rightarrow> analysis \<Rightarrow> (error \<times> event list) + analysis" where
  "analyze_chunk JSON_parse coerce model file chunk st =
     (let answer = getAIResponse JSON_parse (model (calls st));
          aiResponse = fst answer;
          st1 = st\<lparr>trace := trace st @ BuildPrompt file chunk # snd answer,
                   calls := Suc (calls st)\<rparr>
      in if \<not> stringifies aiResponse then Inl (TypeError, trace st1)
         else if truthy aiResponse
         then (case createComment coerce file chunk aiResponse of
                 Inl e \<Rightarrow> Inl (e, trace st1)
               | Inr newComments \<Rightarrow> Inr (st1\<lparr>collected := collected st1 @ newComments\<rparr>))
         else Inr st1)"

fun analyze_chunks ::
  "(string \<Rightarrow> jsval option) \<Rightarrow> (jsval \<Rightarrow> jsnum) \<Rightarrow> (nat \<Rightarrow> completion) \<Rightarrow> File \<Rightarrow> Chunk list
     \<Rightarrow> analysis \<Rightarrow> (error \<times> event list) + analysis" where
  "analyze_chunks JSON_parse coerce model file [] st = Inr st"
| "analyze_chunks JSON_parse coerce model file (chunk # rest) st =
     (case analyze_chunk JSON_parse coerce model file chunk st of
        Inl e \<Rightarrow> Inl e
      | Inr st' \<Rightarrow> analyze_chunks JSON_parse coerce model file rest st')"

fun analyze_files ::
  "(string \<Rightarrow> jsval option) \<Rightarrow> (jsval \<Rightarrow> jsnum) \<Rightarrow> (nat \<Rightarrow> completion) \<Rightarrow> File list
     \<Rightarrow> analysis \<Rightarrow> (error \<times> event list) + analysis" where
  "analyze_files JSON_parse coerce model [] st = Inr st"
| "analyze_files JSON_parse coerce model (file # rest) st =
     (if to file = Some ''/dev/null'' then analyze_files JSON_parse coerce model rest st
      else
        (case analyze_chunks JSON_parse coerce model file (chunks file) st of
           Inl e \<Rightarrow> Inl e
         | Inr st' \<Rightarrow> analyze_files JSON_parse coerce model rest st'))"

definition analyzeCode ::
  "(string \<Rightarrow> jsval option) \<Rightarrow> (jsval \<Rightarrow> jsnum) \<Rightarrow> (nat \<Rightarrow> completion) \<Rightarrow> File list
     \<Rightarrow> (error \<times> event list) + analysis" where
  "analyzeCode JSON_parse coerce model parsedDiff =
     analyze_files JSON_parse coerce model parsedDiff \<lparr>collected = [], trace = [], calls = 0\<rparr>"

section \<open>Delivery: \<open>createReviewComment\<close> of \<open>main.ts\<close>\<close>

text \<open>
  The inner \<open>while (retries > 0)\<close> loop for one batch. \<open>host n\<close> tells whether the
  \<open>n\<close>-th call of \<open>octokit.pulls.createReview\<close> of the run resolves (\<open>True\<close>) or
  throws; the counter of calls made so far is threaded through. On success the loop logs and
  breaks; on failure it logs the attempt number \<open>4 - retries\<close>, decrements \<open>retries\<close>,
  and either logs that the batch is dropped or sleeps before the next attempt.
\<close>

fun retry_loop ::
  "(nat \<Rightarrow> bool) \<Rightarrow> jsnum \<Rightarrow> comment list \<Rightarrow> nat \<Rightarrow> nat \<Rightarrow> nat \<times> event list" where
  "retry_loop host D batch 0 n = (n, [])"
| "retry_loop host D batch (Suc r) n =
     (if host n then (Suc n, [CreateReview batch, LogSent batch])
      else
        (let rest = retry_loop host D batch r (Suc n)
         in (fst rest,
             [CreateReview batch, LogFailed (4 - int (Suc r))]
               @ (if r = 0 then [LogDropping] else [Sleep D])
               @ snd rest)))"

text \<open>
  One pass of the body of the \<open>for\<close> loop: the slice, the retry loop started with
  \<open>retries = 3\<close>, and the unconditional sleep that ends the body. The result carries the
  batch, the events of the pass and the new request counter.
\<close>

definition loop_body ::
  "(nat \<Rightarrow> bool) \<Rightarrow> jsnum \<Rightarrow> jsnum \<Rightarrow> comment list \<Rightarrow> jsnum \<Rightarrow> nat
     \<Rightarrow> (comment list \<times> event list) \<times> nat" where
  "loop_body host B D comments i n =
     (let batch = slice comments i (js_add i B);
          r = retry_loop host D batch 3 n
      in ((batch, snd r @ [Sleep D]), fst r))"

text \<open>
  The \<open>for (let i = 0; i < comments.length; i += BATCH_SIZE)\<close> loop. Nothing in the
  source bounds the number of passes, so the loop is a partial function: \<open>None\<close> is a run
  that never leaves the loop. The accumulator lists the passes made so far, one entry per
  pass.
\<close>

partial_function (option) batch_loop ::
  "(nat \<Rightarrow> bool) \<Rightarrow> jsnum \<Rightarrow> jsnum \<Rightarrow> comment list \<Rightarrow> jsnum \<Rightarrow> nat
     \<Rightarrow> (comment list \<times> event list) list \<Rightarrow> (comment list \<times> event list) list option" where
  "batch_loop host B D comments i n acc =
     (if js_lt i (Num (int (length comments)))
      then batch_loop host B D comments (js_add i B)
             (snd (loop_body host B D comments i n))
             (acc @ [fst (loop_body host B D comments i n)])
      else Some acc)"

definition createReviewComment ::
  "(nat \<Rightarrow> bool) \<Rightarrow> jsnum \<Rightarrow> jsnum \<Rightarrow> comment list \<Rightarrow> (comment list \<times> event list) list option" where
  "createReviewComment host B D comments = batch_loop host B D comments (Num 0) 0 []"

definition batches_of :: "(comment list \<times> event list) list \<Rightarrow> comment list list" where
  "batches_of passes = map fst passes"

definition trace_of :: "(comment list \<times> event list) list \<Rightarrow> event list" where
  "trace_of passes = concat (map snd passes)"

section \<open>The entry point: \<open>main\<close>\<close>

text \<open>
  What a run of the action meets outside the pipeline. \<open>event_action\<close> is
  \<open>eventData.action\<close> of the event payload, \<open>None\<close> when reading or parsing the file
  at \<open>GITHUB_EVENT_PATH\<close> throws. \<open>pr_details\<close> tells whether the rest of
  \<open>getPRDetails\<close> (destructuring the payload and \<open>octokit.pulls.get\<close>) goes through.
  \<open>pull_diff\<close> is the result of \<open>getDiff\<close> and \<open>compare_diff\<close> that of
  \<open>String(response.data)\<close> after \<open>compareCommits\<close>; \<open>None\<close> is an exception.
  \<open>parseDiff\<close> and \<open>minimatch\<close> are the two libraries; \<open>parse_json\<close>,
  \<open>to_number\<close>, \<open>openai\<close> and \<open>octokit\<close> are the built-ins and the two clients
  that the functions above take as \<open>JSON_parse\<close>, \<open>coerce\<close>, \<open>model\<close> and \<open>host\<close>.
\<close>

record run =
  event_action :: "jsval option"
  pr_details :: bool
  pull_diff :: "string option option"
  compare_diff :: "string option"
  parseDiff :: "string \<Rightarrow> File list"
  include_input :: string
  minimatch :: "string \<Rightarrow> string \<Rightarrow> bool"
  parse_json :: "string \<Rightarrow> jsval option"
  to_number :: "jsval \<Rightarrow> jsnum"
  openai :: "nat \<Rightarrow> completion"
  octokit :: "nat \<Rightarrow> bool"
  BATCH_SIZE :: jsnum
  DELAY_BETWEEN_BATCHES :: jsnum

datatype fetched = Unsupported | Threw | Diff "string option"

definition fetch_diff :: "run \<Rightarrow> jsval \<Rightarrow> fetched" where
  "fetch_diff r action =
     (if action = JStr ''opened''
      then (case pull_diff r of None \<Rightarrow> Threw | Some d \<Rightarrow> Diff d)
      else if action = JStr ''synchronize''
      then (case compare_diff r of None \<Rightarrow> Threw | Some d \<Rightarrow> Diff (Some d))
      else Unsupported)"

text \<open>
  \<open>core.getInput("include").split(",").map((s) => s.trim())\<close> and the filter over the
  parsed diff.
\<close>

definition includePatterns :: "run \<Rightarrow> string list" where
  "includePatterns r = map trim (split_comma (include_input r))"

definition filteredDiff :: "run \<Rightarrow> File list \<Rightarrow> File list" where
  "filteredDiff r parsedDiff =
     filter (\<lambda>file. list_ex (\<lambda>pattern. minimatch r (path_or_empty file) pattern)
                      (includePatterns r))
            parsedDiff"

text \<open>
  \<open>main\<close> with its \<open>try\<close>/\<open>catch\<close>. The result is the exit status of the process and
  the trace: \<open>process.exit(1)\<close> in the \<open>catch\<close>, status 0 when \<open>main\<close> returns. \<open>None\<close>
  is a run that never ends.
\<close>

definition main :: "run \<Rightarrow> (nat \<times> event list) option" where
  "main r =
     (case event_action r of
        None \<Rightarrow> Some (1, [LogFatal])
      | Some action \<Rightarrow>
          if \<not> pr_details r then Some (1, [LogFatal])
          else
            (case fetch_diff r action of
               Unsupported \<Rightarrow> Some (0, [LogUnsupported])
             | Threw \<Rightarrow> Some (1, [LogFatal])
             | Diff None \<Rightarrow> Some (0, [LogNoDiff])
             | Diff (Some diff) \<Rightarrow>
                 if diff = [] then Some (0, [LogNoDiff])
                 else
                   (case analyzeCode (parse_json r) (to_number r) (openai r)
                           (filteredDiff r (parseDiff r diff)) of
                      Inl (e, tr) \<Rightarrow> Some (1, tr @ [LogFatal])
                    | Inr st \<Rightarrow>
                        if 0 < length (collected st)
                        then (case createReviewComment (octokit r) (BATCH_SIZE r)
                                     (DELAY_BETWEEN_BATCHES r) (collected st) of
                                None \<Rightarrow> None
                              | Some passes \<Rightarrow> Some (0, trace st @ trace_of passes))
                        else Some (0, trace st))))"

section \<open>Auxiliary definitions\<close>

text \<open>
  The partition the design asks for: consecutive batches of at most \<open>b\<close> elements.
\<close>

function consecutive_batches :: "nat \<Rightarrow> 'a list \<Rightarrow> 'a list list" where
  "consecutive_batches b xs =
     (if b = 0 \<or> xs = [] then [] else take b xs # consecutive_batches b (drop b xs))"
  by pat_completeness auto
termination
  by (relation "measure (\<lambda>(b, xs). length xs)") auto

declare consecutive_batches.simps [simp del]

text \<open>
  The passes of the delivery loop from index \<open>i\<close> on, for a positive integer batch size.
  Here the index grows by \<open>b > 0\<close> in every pass, which bounds the recursion.
\<close>

function passes_from ::
  "(nat \<Rightarrow> bool) \<Rightarrow> nat \<Rightarrow> jsnum \<Rightarrow> comment list \<Rightarrow> nat \<Rightarrow> nat
     \<Rightarrow> (comment list \<times> event list) list" where
  "passes_from host b D cs i n =
     (if b = 0 \<or> length cs \<le> i then []
      else fst (loop_body host (Num (int b)) D cs (Num (int i)) n)
             # passes_from host b D cs (i + b)
                 (snd (loop_body host (Num (int b)) D cs (Num (int i)) n)))"
  by pat_completeness auto
termination
  by (relation "measure (\<lambda>(host, b, D, cs, i, n). length cs - i)") auto

declare passes_from.simps [simp del]

text \<open>
  The four courses the retry loop can take for a batch: success at the first, second or
  third attempt, or three failures.
\<close>

definition attempts_1 :: "comment list \<Rightarrow> event list" where
  "attempts_1 b = [CreateReview b, LogSent b]"

definition attempts_2 :: "jsnum \<Rightarrow> comment list \<Rightarrow> event list" where
  "attempts_2 D b = [CreateReview b, LogFailed 1, Sleep D, CreateReview b, LogSent b]"

definition attempts_3 :: "jsnum \<Rightarrow> comment list \<Rightarrow> event list" where
  "attempts_3 D b =
     [CreateReview b, LogFailed 1, Sleep D, CreateReview b, LogFailed 2, Sleep D,
      CreateReview b, LogSent b]"

definition attempts_exhausted :: "jsnum \<Rightarrow> comment list \<Rightarrow> event list" where
  "attempts_exhausted D b =
     [CreateReview b, LogFailed 1, Sleep D, CreateReview b, LogFailed 2, Sleep D,
      CreateReview b, LogFailed 3, LogDropping]"

text \<open>
  A property read that cannot throw, for values that are neither \<open>null\<close> nor
  \<open>undefined\<close>, and the comment that the callback of \<open>createComment\<close> in
  \<open>main.ts\<close> builds from such a candidate when \<open>Number\<close> does not throw.
\<close>

definition property :: "jsval \<Rightarrow> string \<Rightarrow> jsval" where
  "property v key = (case get v key of Inl e \<Rightarrow> Undefined | Inr x \<Rightarrow> x)"

definition comment_for :: "(jsval \<Rightarrow> jsnum) \<Rightarrow> File \<Rightarrow> jsval \<Rightarrow> comment" where
  "comment_for coerce file aiResponse =
     \<lparr>body = property aiResponse ''reviewComment'', path = path_or_empty file,
      line = (case Number coerce (property aiResponse ''lineNumber'') of
                Inl e \<Rightarrow> NaN
              | Inr n \<Rightarrow> n)\<rparr>"

text \<open>
  A candidate as the prompt asks for it: an object with a number or a string as
  \<open>lineNumber\<close> and a string as \<open>reviewComment\<close>, and no \<open>toString\<close> of its own.
  An answer of the model counts as recoverable when \<open>getAIResponse\<close> makes nothing of
  it (the request failed, the text is empty or does not parse, or there is no
  \<open>reviews\<close>) or a list of such candidates, whatever lines they cite.
\<close>

definition well_formed_candidate :: "jsval \<Rightarrow> bool" where
  "well_formed_candidate x =
     (case x of
        JObj kvs \<Rightarrow>
          map_of kvs ''toString'' = None
          \<and> (case map_of kvs ''lineNumber'' of
                Some (JNum n) \<Rightarrow> True
              | Some (JStr s) \<Rightarrow> True
              | _ \<Rightarrow> False)
          \<and> (case map_of kvs ''reviewComment'' of
                Some (JStr s) \<Rightarrow> True
              | _ \<Rightarrow> False)
      | _ \<Rightarrow> False)"

definition recoverable_answer :: "(string \<Rightarrow> jsval option) \<Rightarrow> completion \<Rightarrow> bool" where
  "recoverable_answer JSON_parse answer =
     (case fst (getAIResponse JSON_parse answer) of
        JArr rs \<Rightarrow> list_all well_formed_candidate rs
      | r \<Rightarrow> \<not> truthy r)"

subsection \<open>Example data\<close>

text \<open>
  A hunk with added lines 10 and 12 and a context line 11, in a file \<open>src/app.ts\<close>.
\<close>

definition sample_chunk :: Chunk where
  "sample_chunk =
     \<lparr>chunk_content = ''@@ -10,1 +10,3 @@'',
      changes = [\<lparr>ln = Some 10, ln2 = None, content = ''+const limit = 42;''\<rparr>,
                 \<lparr>ln = None, ln2 = Some 11, content = '' run(limit);''\<rparr>,
                 \<lparr>ln = Some 12, ln2 = None, content = ''+done();''\<rparr>]\<rparr>"

definition sample_file :: File where
  "sample_file = \<lparr>to = Some ''src/app.ts'', chunks = [sample_chunk]\<rparr>"

text \<open>
  The examples give line numbers as JSON numbers, so the string part of \<open>Number\<close> is
  never consulted in them.
\<close>

definition sample_coerce :: "jsval \<Rightarrow> jsnum" where
  "sample_coerce v = NaN"

text \<open>
  The answer of the design's example, with a second candidate that cites line 99, and a
  \<open>JSON.parse\<close> that knows the texts used in the examples.
\<close>

definition sample_reviews :: jsval where
  "sample_reviews =
     JArr [JObj [(''lineNumber'', JNum (Num 10)),
                 (''reviewComment'', JStr ''Use a constant here.'')],
           JObj [(''lineNumber'', JNum (Num 99)), (''reviewComment'', JStr ''x'')]]"

definition sample_answer :: string where
  \<open>sample_answer =
     ''{"reviews": [{"lineNumber": 10, "reviewComment": "Use a constant here."}, {"lineNumber": 99, "reviewComment": "x"}]}''\<close>

text \<open>
  An answer whose second candidate has no comment text; both cite lines of the hunk.
\<close>

definition partial_reviews :: jsval where
  "partial_reviews =
     JArr [JObj [(''lineNumber'', JNum (Num 10)),
                 (''reviewComment'', JStr ''Use a constant here.'')],
           JObj [(''lineNumber'', JNum (Num 12))]]"

definition partial_answer :: string where
  \<open>partial_answer =
     ''{"reviews": [{"lineNumber": 10, "reviewComment": "Use a constant here."}, {"lineNumber": 12}]}''\<close>

definition sample_parse :: "string \<Rightarrow> jsval option" where
  \<open>sample_parse s =
     (if s = ''{}'' then Some (JObj [])
      else if s = ''{"reviews": "none"}'' then Some (JObj [(''reviews'', JStr ''none'')])
      else if s = sample_answer then Some (JObj [(''reviews'', sample_reviews)])
      else if s = partial_answer then Some (JObj [(''reviews'', partial_reviews)])
      else None)\<close>


text \<open>An answer that is white space only: a space, a no-break space and a line feed.\<close>

definition model_blank :: "nat \<Rightarrow> completion" where
  "model_blank k = Content (Some [CHR 0x20, CHR 0xA0, CHR 0x0A])"

definition model_sample :: "nat \<Rightarrow> completion" where
  "model_sample k = Content (Some sample_answer)"

definition model_not_json :: "nat \<Rightarrow> completion" where
  "model_not_json k = Content (Some ''not json'')"


definition start :: analysis where
  "start = \<lparr>collected = [], trace = [], calls = 0\<rparr>"

text \<open>
  Whether a number addresses a line of the hunk: the test that the \<open>find\<close> of the
  sibling variant makes.
\<close>

definition in_hunk :: "Chunk \<Rightarrow> jsnum \<Rightarrow> bool" where
  "in_hunk chunk n = list_ex (\<lambda>change. strict_eq (ln_or_ln2 change) n) (changes chunk)"


definition raw_text :: string where
  "raw_text = [CHR ''a'', CHR 0x0A, CHR 0x22, CHR ''b'', CHR 0x5C, CHR ''c'']"

definition raw_review :: jsval where
  "raw_review = JArr [JObj [(''lineNumber'', JNum (Num 10)), (''reviewComment'', JStr raw_text)]]"

text \<open>What \<open>escapeSpecialChars\<close> makes of one character.\<close>

definition escape_char :: "char \<Rightarrow> string" where
  "escape_char x =
     (if x = CHR 0x5C then [CHR 0x5C, CHR 0x5C]
      else if x = CHR 0x22 then [CHR 0x5C, CHR 0x22]
      else if x = CHR 0x27 then [CHR 0x5C, CHR 0x27]
      else if x = CHR 0x0A then [CHR 0x5C, CHR ''n'']
      else if x = CHR 0x0D then [CHR 0x5C, CHR ''r'']
      else if x = CHR 0x09 then [CHR 0x5C, CHR ''t'']
      else [x])"

text \<open>The trace that \<open>analyzeCode\<close> leaves, whether it returns or throws.\<close>

definition result_trace :: "(error \<times> event list) + analysis \<Rightarrow> event list" where
  "result_trace res = (case res of Inl (e, tr) \<Rightarrow> tr | Inr st \<Rightarrow> trace st)"

text \<open>
  A run on an opened pull request whose diff touches \<open>README.md\<close> and
  \<open>src/app.ts\<close>, with \<open>include\<close> set to \<open>**/*.ts\<close>, and variations of it.
\<close>

definition sample_minimatch :: "string \<Rightarrow> string \<Rightarrow> bool" where
  "sample_minimatch p pattern = (pattern = ''**/*.ts'' \<and> p = ''src/app.ts'')"

definition sample_parseDiff :: "string \<Rightarrow> File list" where
  "sample_parseDiff d = [\<lparr>to = Some ''README.md'', chunks = [sample_chunk]\<rparr>, sample_file]"

definition sample_run :: run where
  "sample_run =
     \<lparr>event_action = Some (JStr ''opened''),
      pr_details = True,
      pull_diff = Some (Some ''diff --git a/src/app.ts b/src/app.ts''),
      compare_diff = None,
      parseDiff = sample_parseDiff,
      include_input = ''**/*.ts'',
      minimatch = sample_minimatch,
      parse_json = sample_parse,
      to_number = sample_coerce,
      openai = model_not_json,
      octokit = (\<lambda>n. False),
      BATCH_SIZE = Num 5,
      DELAY_BETWEEN_BATCHES = Num 2500\<rparr>"

definition closed_run :: run where
  "closed_run = sample_run\<lparr>event_action := Some (JStr ''closed'')\<rparr>"

definition empty_diff_run :: run where
  "empty_diff_run = sample_run\<lparr>pull_diff := Some (Some [])\<rparr>"

definition unreadable_run :: run where
  "unreadable_run = sample_run\<lparr>event_action := None\<rparr>"

definition reviewed_run :: run where
  "reviewed_run = sample_run\<lparr>openai := model_sample\<rparr>"

definition stuck_run :: run where
  "stuck_run = reviewed_run\<lparr>BATCH_SIZE := Num 0\<rparr>"

text \<open>A comment used in the examples.\<close>

definition sample_comment :: comment where
  "sample_comment =
     \<lparr>body = JStr ''Use a constant here.'', path = ''src/app.ts'', line = Num 10\<rparr>"

section \<open>Validation\<close>

lemma getAIResponse_blank:
  assumes "JSON_parse ''{}'' = Some (JObj [])"
    and "case reply of None \<Rightarrow> True | Some t \<Rightarrow> trim t = []"
  shows "getAIResponse JSON_parse (Content reply) = (Undefined, [])"
  using assms by (cases reply) (simp_all add: getAIResponse_def)

lemma getAIResponse_unparsable:
  assumes "trim t \<noteq> []" and "JSON_parse (trim t) = None"
  shows "getAIResponse JSON_parse (Content (Some t)) = (JNull, [LogError])"
  using assms by (simp add: getAIResponse_def)

lemma falsy_stringifies: "\<not> truthy r \<Longrightarrow> stringifies r"
  by (cases r) simp_all

lemma analyze_chunk_falsy:
  assumes "\<not> truthy (fst (getAIResponse JSON_parse (model (calls st))))"
  shows "analyze_chunk JSON_parse coerce model f chunk st =
     Inr (st\<lparr>trace := trace st @ BuildPrompt f chunk
                          # snd (getAIResponse JSON_parse (model (calls st))),
              calls := Suc (calls st)\<rparr>)"
  using assms falsy_stringifies [OF assms] by (simp add: analyze_chunk_def Let_def)

text \<open>
  Claim C8 as the code has it. Let \<open>JSON.parse\<close> read \<open>{}\<close> as the empty object.
  When the content of the completion is absent, empty after trimming, or not parsable,
  \<open>getAIResponse\<close> returns a falsy value. A text that does not parse gives \<open>null\<close>
  and the error is logged. An absent or empty text counts as \<open>{}\<close>: nothing has failed,
  the result is \<open>undefined\<close> and nothing is logged. In both cases the loop of
  \<open>analyzeCode\<close> goes on to the next hunk with the comments collected so far unchanged;
  no exception leaves the step.
\<close>

theorem fail_soft_validation:
  assumes "JSON_parse ''{}'' = Some (JObj [])"
    and "model (calls st) = Content reply"
    and "case reply of None \<Rightarrow> True | Some t \<Rightarrow> trim t = [] \<or> JSON_parse (trim t) = None"
  shows "getAIResponse JSON_parse (model (calls st))
           = (if (case reply of None \<Rightarrow> True | Some t \<Rightarrow> trim t = [])
              then (Undefined, []) else (JNull, [LogError]))
       \<and> analyze_chunks JSON_parse coerce model f (chunk # rest) st
           = analyze_chunks JSON_parse coerce model f rest
               (st\<lparr>trace := trace st @ BuildPrompt f chunk
                                 # snd (getAIResponse JSON_parse (model (calls st))),
                    calls := Suc (calls st)\<rparr>)"
proof -
  have answer: "getAIResponse JSON_parse (model (calls st))
           = (if (case reply of None \<Rightarrow> True | Some t \<Rightarrow> trim t = [])
              then (Undefined, []) else (JNull, [LogError]))"
  proof (cases "case reply of None \<Rightarrow> True | Some t \<Rightarrow> trim t = []")
    case True
    with assms(1) show ?thesis
      by (simp add: assms(2) getAIResponse_blank)
  next
    case False
    then obtain t where t: "reply = Some t" "trim t \<noteq> []"
      by (cases reply) auto
    with assms(3) have "JSON_parse (trim t) = None" by simp
    with t False show ?thesis
      by (simp add: assms(2) getAIResponse_unparsable)
  qed
  then have "\<not> truthy (fst (getAIResponse JSON_parse (model (calls st))))"
    by (simp split: if_splits)
  then have "analyze_chunk JSON_parse coerce model f chunk st =
     Inr (st\<lparr>trace := trace st @ BuildPrompt f chunk
                          # snd (getAIResponse JSON_parse (model (calls st))),
              calls := Suc (calls st)\<rparr>)"
    by (rule analyze_chunk_falsy)
  then have "analyze_chunks JSON_parse coerce model f (chunk # rest) st
           = analyze_chunks JSON_parse coerce model f rest
               (st\<lparr>trace := trace st @ BuildPrompt f chunk
                                 # snd (getAIResponse JSON_parse (model (calls st))),
                    calls := Suc (calls st)\<rparr>)"
    by simp
  with answer show ?thesis by (rule conjI)
qed

text \<open>The design's example: the model answers \<open>not json\<close>.\<close>

theorem fail_soft_validation_witness:
  "sample_parse ''{}'' = Some (JObj [])
   \<and> model_not_json (calls start) = Content (Some ''not json'')
   \<and> sample_parse (trim ''not json'') = None
   \<and> getAIResponse sample_parse (model_not_json (calls start)) = (JNull, [LogError])
   \<and> analyze_chunks sample_parse sample_coerce model_not_json sample_file [sample_chunk] start
       = Inr \<lparr>collected = [], trace = [BuildPrompt sample_file sample_chunk, LogError],
              calls = 1\<rparr>"
proof -
  have p: "sample_parse ''{}'' = Some (JObj [])"
    by (simp add: sample_parse_def)
  have m: "model_not_json (calls start) = Content (Some ''not json'')"
    by (simp add: model_not_json_def)
  have t: "trim ''not json'' = ''not json''"
    by (simp add: trim_def is_white_def)
  have n: "sample_parse (trim ''not json'') = None"
    by (simp add: t sample_parse_def sample_answer_def partial_answer_def)
  have c: "case Some ''not json'' of None \<Rightarrow> True
           | Some t \<Rightarrow> trim t = [] \<or> sample_parse (trim t) = None"
    using n by simp
  show ?thesis
    using fail_soft_validation [where JSON_parse = sample_parse and model = model_not_json
        and st = start and reply = "Some ''not json''" and coerce = sample_coerce
        and f = sample_file and chunk = sample_chunk and rest = "[]", OF p m c] p m n t
    by (simp add: start_def)
qed

text \<open>
  Claim C8 as stated fails where it has the failure logged for every such output: for an
  answer of white space only, nothing is logged.
\<close>

theorem blank_answer_not_logged:
  "getAIResponse sample_parse (model_blank 0) = (Undefined, [])
   \<and> analyze_chunks sample_parse sample_coerce model_blank sample_file [sample_chunk] start
       = Inr \<lparr>collected = [], trace = [BuildPrompt sample_file sample_chunk], calls = 1\<rparr>"
proof -
  have "trim [CHR 0x20, CHR 0xA0, CHR 0x0A] = []"
    by (simp add: trim_def is_white_def)
  then have g: "getAIResponse sample_parse (model_blank 0) = (Undefined, [])"
    by (simp add: getAIResponse_def model_blank_def sample_parse_def)
  then show ?thesis
    by (simp add: analyze_chunk_def Let_def start_def)
qed

section \<open>Anchoring: lemmas\<close>

lemma get_defined: "x \<noteq> JNull \<Longrightarrow> x \<noteq> Undefined \<Longrightarrow> get x key = Inr (property x key)"
  by (cases x) (simp_all add: property_def split: option.splits)

lemma Number_stringifies: "stringifies v \<Longrightarrow> \<exists>n. Number coerce v = Inr n"
  by (cases v) simp_all

lemma comment_of_defined:
  assumes "\<not> no_path f" and "x \<noteq> JNull" and "x \<noteq> Undefined"
    and "stringifies (property x ''lineNumber'')"
  shows "comment_of coerce f x = Inr [comment_for coerce f x]"
proof -
  obtain n where "Number coerce (property x ''lineNumber'') = Inr n"
    using Number_stringifies [OF assms(4)] by blast
  with assms(1-3) show ?thesis
    by (simp add: comment_of_def comment_for_def get_defined)
qed

lemma flatMap_comment_of:
  assumes "\<not> no_path f"
    and "\<forall>x \<in> set rs. x \<noteq> JNull \<and> x \<noteq> Undefined \<and> stringifies (property x ''lineNumber'')"
  shows "flatMap (comment_of coerce f) rs = Inr (map (comment_for coerce f) rs)"
  using assms(2)
proof (induction rs)
  case Nil
  then show ?case by simp
next
  case (Cons x rs)
  then have "comment_of coerce f x = Inr [comment_for coerce f x]"
    using assms(1) by (auto intro: comment_of_defined)
  with Cons show ?case by simp
qed

text \<open>
  The sibling variant is sound: every comment it returns cites a line of the hunk.
\<close>

lemma anchored_comment_of_sound:
  assumes "anchored_comment_of coerce f chunk x = Inr (cs, log)" and "m \<in> set cs"
  shows "in_hunk chunk (line m) \<and> path m = path_or_empty f"
  using assms
  by (auto simp: anchored_comment_of_def in_hunk_def Let_def
      split: if_splits sum.splits jsval.splits)

lemma flatMap_log_sound:
  assumes "flatMap_log (anchored_comment_of coerce f chunk) rs = Inr (cs, log)"
    and "m \<in> set cs"
  shows "in_hunk chunk (line m) \<and> path m = path_or_empty f"
  using assms
proof (induction rs arbitrary: cs log)
  case Nil
  then show ?case by simp
next
  case (Cons x rs)
  from Cons.prems(1) obtain ys l1 zs l2 where
    x: "anchored_comment_of coerce f chunk x = Inr (ys, l1)" and
    r: "flatMap_log (anchored_comment_of coerce f chunk) rs = Inr (zs, l2)" and
    cs: "cs = ys @ zs"
    by (auto split: sum.splits prod.splits)
  from Cons.prems(2) cs consider "m \<in> set ys" | "m \<in> set zs" by auto
  then show ?case
  proof cases
    case 1
    with x show ?thesis by (rule anchored_comment_of_sound)
  next
    case 2
    with r show ?thesis by (rule Cons.IH)
  qed
qed

lemma createComment_anchored_sound:
  assumes "createComment_anchored coerce f chunk aiResponses = Inr (cs, log)"
    and "m \<in> set cs"
  shows "in_hunk chunk (line m) \<and> path m = path_or_empty f"
  using assms
  by (cases aiResponses) (auto simp: createComment_anchored_def dest: flatMap_log_sound)

lemma in_hunk_addressable:
  "in_hunk chunk n \<longleftrightarrow> (\<exists>change \<in> set (changes chunk). \<exists>k. ln_or_ln2 change = Some k \<and> n = Num k)"
proof -
  have "strict_eq a n \<longleftrightarrow> (\<exists>k. a = Some k \<and> n = Num k)" for a
    by (cases a; cases n) auto
  then show ?thesis
    by (simp add: in_hunk_def list_ex_iff)
qed

lemma createComment_anchored_sample:
  "createComment_anchored sample_coerce sample_file sample_chunk sample_reviews
     = Inr ([\<lparr>body = JStr ''Use a constant here.'', path = ''src/app.ts'', line = Num 10\<rparr>],
            [LogLineNotFound (Num 99) ''src/app.ts''])"
  by (simp add: createComment_anchored_def sample_reviews_def anchored_comment_of_def
      sample_file_def sample_chunk_def no_path_def path_or_empty_def ln_or_ln2_def Let_def
      escapeSpecialChars_def replace_all_def)

text \<open>
  The six passes of \<open>escapeSpecialChars\<close> amount to one pass that maps each character,
  and no raw line feed, carriage return or tab is left in the result.
\<close>

lemma replace_all_concat:
  "replace_all c r (concat (map g s)) = concat (map (\<lambda>x. replace_all c r (g x)) s)"
  by (induction s) (simp_all add: replace_all_def)

lemma escapeSpecialChars_chars: "escapeSpecialChars s = concat (map escape_char s)"
proof -
  have one: "replace_all c r s = concat (map (\<lambda>x. if x = c then r else [x]) s)" for c r
    by (simp add: replace_all_def)
  show ?thesis
    unfolding escapeSpecialChars_def
    by (subst one [of "CHR 0x5C"], (subst replace_all_concat)+)
       (rule arg_cong [where f = concat], rule map_cong, rule refl,
        simp add: replace_all_def escape_char_def)
qed

lemma escapeSpecialChars_clean:
  "CHR 0x0A \<notin> set (escapeSpecialChars s) \<and> CHR 0x0D \<notin> set (escapeSpecialChars s)
   \<and> CHR 0x09 \<notin> set (escapeSpecialChars s)"
  by (auto simp: escapeSpecialChars_chars escape_char_def split: if_splits)

lemma escapeSpecialChars_sample:
  "escapeSpecialChars raw_text
     = [CHR ''a'', CHR 0x5C, CHR ''n'', CHR 0x5C, CHR 0x22, CHR ''b'', CHR 0x5C, CHR 0x5C, CHR ''c'']"
  by (simp add: escapeSpecialChars_chars escape_char_def raw_text_def)

text \<open>
  Claim C1 (anchoring soundness) against \<open>createComment\<close> of \<open>main.ts\<close>. On the
  design's example, a hunk with lines 10 to 12 and candidates citing lines 10 and 99, the
  function returns two comments, one of them on line 99, which addresses no line of the
  hunk. The sibling variant returns the comment on line 10 only and logs the miss
  (\<open>createComment_anchored_sample\<close>, \<open>createComment_anchored_sound\<close>).
\<close>

theorem createComment_line_outside_hunk:
  "createComment sample_coerce sample_file sample_chunk sample_reviews
     = Inr [\<lparr>body = JStr ''Use a constant here.'', path = ''src/app.ts'', line = Num 10\<rparr>,
            \<lparr>body = JStr ''x'', path = ''src/app.ts'', line = Num 99\<rparr>]
   \<and> \<not> in_hunk sample_chunk (Num 99)"
  by (simp add: createComment_def sample_reviews_def comment_of_def sample_file_def
      sample_chunk_def no_path_def path_or_empty_def in_hunk_def ln_or_ln2_def)

text \<open>
  Claim C3 (escaped body) against \<open>createComment\<close> of \<open>main.ts\<close>. A comment text
  with a line feed, a double quote and a backslash is placed in the body unchanged, whereas
  \<open>escapeSpecialChars\<close> of the sibling variant would change it.
\<close>

theorem createComment_body_verbatim:
  "createComment sample_coerce sample_file sample_chunk raw_review
     = Inr [\<lparr>body = JStr raw_text, path = ''src/app.ts'', line = Num 10\<rparr>]
   \<and> escapeSpecialChars raw_text \<noteq> raw_text"
  by (simp add: createComment_def raw_review_def comment_of_def sample_file_def
      no_path_def path_or_empty_def escapeSpecialChars_sample) (simp add: raw_text_def)





section \<open>Path filtering\<close>

lemma getAIResponse_log: "snd (getAIResponse JSON_parse answer) = [] \<or> snd (getAIResponse JSON_parse answer) = [LogError]"
  by (simp add: getAIResponse_def Let_def split: completion.splits option.splits sum.splits)

lemma analyze_chunk_prompts:
  assumes "BuildPrompt g d \<in> set (result_trace (analyze_chunk JSON_parse coerce model f c st))"
  shows "BuildPrompt g d \<in> set (trace st) \<or> (g = f \<and> d = c)"
proof -
  have "BuildPrompt g d \<notin> set (snd (getAIResponse JSON_parse (model (calls st))))"
    using getAIResponse_log [of JSON_parse "model (calls st)"] by auto
  with assms show ?thesis
    by (auto simp: analyze_chunk_def Let_def result_trace_def split: if_splits sum.splits)
qed

lemma analyze_chunks_prompts:
  assumes "BuildPrompt g d \<in> set (result_trace (analyze_chunks JSON_parse coerce model f cs st))"
  shows "BuildPrompt g d \<in> set (trace st) \<or> (g = f \<and> d \<in> set cs)"
  using assms
proof (induction cs arbitrary: st)
  case Nil
  then show ?case by (simp add: result_trace_def)
next
  case (Cons c cs)
  show ?case
  proof (cases "analyze_chunk JSON_parse coerce model f c st")
    case (Inl e)
    with Cons.prems have "BuildPrompt g d \<in> set (result_trace (analyze_chunk JSON_parse coerce model f c st))"
      by simp
    then show ?thesis using analyze_chunk_prompts by fastforce
  next
    case (Inr st')
    with Cons.prems have "BuildPrompt g d \<in> set (result_trace (analyze_chunks JSON_parse coerce model f cs st'))"
      by simp
    then have "BuildPrompt g d \<in> set (trace st') \<or> (g = f \<and> d \<in> set cs)"
      by (rule Cons.IH)
    moreover have "BuildPrompt g d \<in> set (trace st') \<Longrightarrow> BuildPrompt g d \<in> set (trace st) \<or> (g = f \<and> d = c)"
      using analyze_chunk_prompts [of g d JSON_parse coerce model f c st] Inr
      by (simp add: result_trace_def)
    ultimately show ?thesis by auto
  qed
qed

lemma analyze_files_prompts:
  assumes "BuildPrompt g d \<in> set (result_trace (analyze_files JSON_parse coerce model fs st))"
  shows "BuildPrompt g d \<in> set (trace st)
         \<or> (g \<in> set fs \<and> d \<in> set (chunks g) \<and> to g \<noteq> Some ''/dev/null'')"
  using assms
proof (induction fs arbitrary: st)
  case Nil
  then show ?case by (simp add: result_trace_def)
next
  case (Cons f fs)
  show ?case
  proof (cases "to f = Some ''/dev/null''")
    case True
    with Cons.prems have "BuildPrompt g d \<in> set (result_trace (analyze_files JSON_parse coerce model fs st))"
      by simp
    then have "BuildPrompt g d \<in> set (trace st)
         \<or> (g \<in> set fs \<and> d \<in> set (chunks g) \<and> to g \<noteq> Some ''/dev/null'')"
      by (rule Cons.IH)
    then show ?thesis by auto
  next
    case False
    show ?thesis
    proof (cases "analyze_chunks JSON_parse coerce model f (chunks f) st")
      case (Inl e)
      with Cons.prems False
      have "BuildPrompt g d \<in> set (result_trace (analyze_chunks JSON_parse coerce model f (chunks f) st))"
        by simp
      then have "BuildPrompt g d \<in> set (trace st) \<or> (g = f \<and> d \<in> set (chunks f))"
        by (rule analyze_chunks_prompts)
      with False show ?thesis by auto
    next
      case (Inr st')
      with Cons.prems False
      have "BuildPrompt g d \<in> set (result_trace (analyze_files JSON_parse coerce model fs st'))"
        by simp
      then have "BuildPrompt g d \<in> set (trace st')
         \<or> (g \<in> set fs \<and> d \<in> set (chunks g) \<and> to g \<noteq> Some ''/dev/null'')"
        by (rule Cons.IH)
      moreover have "BuildPrompt g d \<in> set (trace st') \<Longrightarrow>
          BuildPrompt g d \<in> set (trace st) \<or> (g = f \<and> d \<in> set (chunks f))"
        using analyze_chunks_prompts [of g d JSON_parse coerce model f "chunks f" st] Inr
        by (simp add: result_trace_def)
      ultimately show ?thesis using False by auto
    qed
  qed
qed

lemma analyze_files_skip:
  "to f = Some ''/dev/null'' \<Longrightarrow>
   analyze_files JSON_parse coerce model (xs @ f # ys) st
     = analyze_files JSON_parse coerce model (xs @ ys) st"
  by (induction xs arbitrary: st) (simp_all split: sum.splits)

lemma filteredDiff_set:
  "g \<in> set (filteredDiff r fs) \<longleftrightarrow>
     g \<in> set fs \<and> (\<exists>pattern \<in> set (includePatterns r). minimatch r (path_or_empty g) pattern)"
  by (simp add: filteredDiff_def list_ex_iff)

lemma filteredDiff_append:
  "filteredDiff r (xs @ ys) = filteredDiff r xs @ filteredDiff r ys"
  by (simp add: filteredDiff_def)

lemma filteredDiff_excluded:
  assumes "\<forall>pattern \<in> set (includePatterns r). \<not> minimatch r (path_or_empty f) pattern"
  shows "filteredDiff r (xs @ f # ys) = filteredDiff r (xs @ ys)"
  using assms by (simp add: filteredDiff_def list_ex_iff)

lemma filteredDiff_deleted:
  assumes "to f = Some ''/dev/null''"
  shows "analyze_files JSON_parse coerce model (filteredDiff r (xs @ f # ys)) st
           = analyze_files JSON_parse coerce model (filteredDiff r (xs @ ys)) st"
proof (cases "\<exists>pattern \<in> set (includePatterns r). minimatch r (path_or_empty f) pattern")
  case True
  then have "filteredDiff r (xs @ f # ys) = filteredDiff r xs @ f # filteredDiff r ys"
    by (simp add: filteredDiff_def list_ex_iff)
  then show ?thesis
    using assms by (simp add: analyze_files_skip filteredDiff_append)
next
  case False
  then show ?thesis by (simp add: filteredDiff_excluded)
qed

text \<open>
  Claim C9 (path filtering and deleted files). Every prompt built in a run is for a hunk
  of a file of the parsed diff whose path matches one of the include patterns and is
  not \<open>/dev/null\<close>. And a file that matches no pattern, or whose path is
  \<open>/dev/null\<close>, contributes nothing: removing it from the parsed diff leaves the
  result of \<open>analyzeCode\<close> (comments and trace) as it is.
\<close>

theorem path_filtering:
  "(\<forall>f c. BuildPrompt f c \<in> set (result_trace
              (analyzeCode JSON_parse coerce model (filteredDiff r parsedDiff))) \<longrightarrow>
        f \<in> set parsedDiff \<and> c \<in> set (chunks f)
        \<and> (\<exists>pattern \<in> set (includePatterns r). minimatch r (path_or_empty f) pattern)
        \<and> to f \<noteq> Some ''/dev/null'')
   \<and> (\<forall>xs f ys. parsedDiff = xs @ f # ys
          \<and> ((\<forall>pattern \<in> set (includePatterns r). \<not> minimatch r (path_or_empty f) pattern)
               \<or> to f = Some ''/dev/null'') \<longrightarrow>
        analyzeCode JSON_parse coerce model (filteredDiff r parsedDiff)
          = analyzeCode JSON_parse coerce model (filteredDiff r (xs @ ys)))"
proof (rule conjI)
  show "\<forall>f c. BuildPrompt f c \<in> set (result_trace
              (analyzeCode JSON_parse coerce model (filteredDiff r parsedDiff))) \<longrightarrow>
        f \<in> set parsedDiff \<and> c \<in> set (chunks f)
        \<and> (\<exists>pattern \<in> set (includePatterns r). minimatch r (path_or_empty f) pattern)
        \<and> to f \<noteq> Some ''/dev/null''"
  proof (rule allI, rule allI, rule impI)
    fix f c
    assume "BuildPrompt f c \<in> set (result_trace
              (analyzeCode JSON_parse coerce model (filteredDiff r parsedDiff)))"
    then have "f \<in> set (filteredDiff r parsedDiff) \<and> c \<in> set (chunks f)
        \<and> to f \<noteq> Some ''/dev/null''"
      using analyze_files_prompts [of f c JSON_parse coerce model "filteredDiff r parsedDiff"
          "\<lparr>collected = [], trace = [], calls = 0\<rparr>"]
      by (simp add: analyzeCode_def)
    then show "f \<in> set parsedDiff \<and> c \<in> set (chunks f)
        \<and> (\<exists>pattern \<in> set (includePatterns r). minimatch r (path_or_empty f) pattern)
        \<and> to f \<noteq> Some ''/dev/null''"
      by (simp add: filteredDiff_set)
  qed
next
  show "\<forall>xs f ys. parsedDiff = xs @ f # ys
          \<and> ((\<forall>pattern \<in> set (includePatterns r). \<not> minimatch r (path_or_empty f) pattern)
               \<or> to f = Some ''/dev/null'') \<longrightarrow>
        analyzeCode JSON_parse coerce model (filteredDiff r parsedDiff)
          = analyzeCode JSON_parse coerce model (filteredDiff r (xs @ ys))"
  proof (intro allI impI)
    fix xs f ys
    assume a: "parsedDiff = xs @ f # ys
          \<and> ((\<forall>pattern \<in> set (includePatterns r). \<not> minimatch r (path_or_empty f) pattern)
               \<or> to f = Some ''/dev/null'')"
    then consider "\<forall>pattern \<in> set (includePatterns r). \<not> minimatch r (path_or_empty f) pattern"
      | "to f = Some ''/dev/null''" by blast
    then show "analyzeCode JSON_parse coerce model (filteredDiff r parsedDiff)
          = analyzeCode JSON_parse coerce model (filteredDiff r (xs @ ys))"
    proof cases
      case 1
      with a show ?thesis by (simp add: filteredDiff_excluded)
    next
      case 2
      with a show ?thesis by (simp add: analyzeCode_def filteredDiff_deleted)
    qed
  qed
qed

lemma includePatterns_sample: "includePatterns sample_run = [''**/*.ts'']"
  by (simp add: includePatterns_def sample_run_def trim_def is_white_def)

text \<open>\<open>README.md\<close> matches no pattern of the example run.\<close>

theorem path_filtering_witness:
  "includePatterns sample_run = [''**/*.ts'']
   \<and> \<not> minimatch sample_run
          (path_or_empty \<lparr>to = Some ''README.md'', chunks = [sample_chunk]\<rparr>) ''**/*.ts''
   \<and> analyzeCode sample_parse sample_coerce model_not_json
        (filteredDiff sample_run [\<lparr>to = Some ''README.md'', chunks = [sample_chunk]\<rparr>, sample_file])
      = analyzeCode sample_parse sample_coerce model_not_json (filteredDiff sample_run [sample_file])"
proof -
  have m: "\<not> minimatch sample_run
          (path_or_empty \<lparr>to = Some ''README.md'', chunks = [sample_chunk]\<rparr>) ''**/*.ts''"
    by (simp add: sample_run_def sample_minimatch_def path_or_empty_def)
  have h: "\<forall>pattern \<in> set (includePatterns sample_run).
       \<not> minimatch sample_run (path_or_empty \<lparr>to = Some ''README.md'', chunks = [sample_chunk]\<rparr>) pattern"
    using m by (simp add: includePatterns_sample)
  have s: "[\<lparr>to = Some ''README.md'', chunks = [sample_chunk]\<rparr>, sample_file]
           = [] @ \<lparr>to = Some ''README.md'', chunks = [sample_chunk]\<rparr> # [sample_file]"
    by simp
  have "analyzeCode sample_parse sample_coerce model_not_json
        (filteredDiff sample_run [\<lparr>to = Some ''README.md'', chunks = [sample_chunk]\<rparr>, sample_file])
      = analyzeCode sample_parse sample_coerce model_not_json (filteredDiff sample_run [sample_file])"
    using h s path_filtering [of sample_parse sample_coerce model_not_json sample_run
        "[\<lparr>to = Some ''README.md'', chunks = [sample_chunk]\<rparr>, sample_file]"]
    by (metis append_Nil)
  with m show ?thesis by (simp add: includePatterns_sample)
qed

section \<open>Delivery: lemmas\<close>

lemma batch_loop_passes:
  "0 < b \<Longrightarrow>
   batch_loop host (Num (int b)) D cs (Num (int i)) n acc
     = Some (acc @ passes_from host b D cs i n)"
proof (induction host b D cs i n arbitrary: acc rule: passes_from.induct)
  case (1 host b D cs i n)
  show ?case
  proof (cases "length cs \<le> i")
    case True
    then show ?thesis
      by (subst batch_loop.simps, subst passes_from.simps) simp
  next
    case False
    with 1 show ?thesis
      by (subst batch_loop.simps, subst passes_from.simps) (simp add: nat_int_add)
  qed
qed

lemma createReviewComment_passes:
  "0 < b \<Longrightarrow> createReviewComment host (Num (int b)) D cs = Some (passes_from host b D cs 0 0)"
  using batch_loop_passes [of b host D cs 0 0 "[]"] by (simp add: createReviewComment_def)

lemma slice_window:
  assumes "i < length xs" and "j = int i + int b"
  shows "slice xs (Num (int i)) (Num j) = take b (drop i xs)"
proof -
  have s: "rel_index (length xs) (Num (int i)) = i"
    using assms(1) by (simp add: rel_index_def)
  have e: "rel_index (length xs) (Num j) = min (i + b) (length xs)"
    using assms(2) by (simp add: rel_index_def min_def nat_int_add)
  show ?thesis
  proof (cases "i + b \<le> length xs")
    case True
    then show ?thesis by (simp add: slice_def s e Let_def)
  next
    case False
    then show ?thesis using assms(1) by (simp add: slice_def s e Let_def)
  qed
qed

lemma passes_from_batches:
  "0 < b \<Longrightarrow> map fst (passes_from host b D cs i n) = consecutive_batches b (drop i cs)"
proof (induction host b D cs i n rule: passes_from.induct)
  case (1 host b D cs i n)
  show ?case
  proof (cases "length cs \<le> i")
    case True
    then show ?thesis
      by (subst passes_from.simps, subst consecutive_batches.simps) simp
  next
    case False
    then have i: "i < length cs" by simp
    have b: "fst (fst (loop_body host (Num (int b)) D cs (Num (int i)) n)) = take b (drop i cs)"
      by (simp add: loop_body_def Let_def slice_window [OF i refl])
    have d: "drop b (drop i cs) = drop (i + b) cs"
      by (simp add: add.commute)
    from 1 False have "map fst (passes_from host b D cs (i + b)
        (snd (loop_body host (Num (int b)) D cs (Num (int i)) n))) =
        consecutive_batches b (drop (i + b) cs)"
      by simp
    with i 1(2) b d show ?thesis
      by (subst passes_from.simps, subst consecutive_batches.simps) simp
  qed
qed

lemma passes_from_body:
  "p \<in> set (passes_from host b D cs i n) \<Longrightarrow>
   \<exists>j m. p = fst (loop_body host (Num (int b)) D cs (Num (int j)) m)"
proof (induction host b D cs i n rule: passes_from.induct)
  case (1 host b D cs i n)
  from 1(2) have "\<not> (b = 0 \<or> length cs \<le> i) \<and>
      (p = fst (loop_body host (Num (int b)) D cs (Num (int i)) n) \<or>
       p \<in> set (passes_from host b D cs (i + b)
                  (snd (loop_body host (Num (int b)) D cs (Num (int i)) n))))"
    by (subst (asm) passes_from.simps) (auto split: if_splits)
  with 1(1) show ?case by blast
qed

lemma retry_loop_3:
  "retry_loop host D b 3 n =
    (if host n then (Suc n, attempts_1 b)
     else if host (Suc n) then (Suc (Suc n), attempts_2 D b)
     else if host (Suc (Suc n)) then (Suc (Suc (Suc n)), attempts_3 D b)
     else (Suc (Suc (Suc n)), attempts_exhausted D b))"
  by (simp add: numeral_3_eq_3 Let_def attempts_1_def attempts_2_def attempts_3_def
      attempts_exhausted_def)

lemma loop_body_events:
  "snd (fst (loop_body host B D cs i n)) \<in>
     {attempts_1 (fst (fst (loop_body host B D cs i n))) @ [Sleep D],
      attempts_2 D (fst (fst (loop_body host B D cs i n))) @ [Sleep D],
      attempts_3 D (fst (fst (loop_body host B D cs i n))) @ [Sleep D],
      attempts_exhausted D (fst (fst (loop_body host B D cs i n))) @ [Sleep D]}"
  by (simp add: loop_body_def Let_def retry_loop_3)

lemma loop_body_exhausted:
  "\<forall>n. \<not> host n \<Longrightarrow>
   snd (fst (loop_body host B D cs i n))
     = attempts_exhausted D (fst (fst (loop_body host B D cs i n))) @ [Sleep D]"
  by (simp add: loop_body_def Let_def retry_loop_3)

lemma loop_body_frame:
  "\<exists>evs. snd (fst (loop_body host B D cs i n))
      = CreateReview (fst (fst (loop_body host B D cs i n))) # evs @ [Sleep D]"
  by (simp add: loop_body_def Let_def retry_loop_3 attempts_1_def attempts_2_def attempts_3_def
      attempts_exhausted_def)

lemma concat_consecutive_batches: "0 < b \<Longrightarrow> concat (consecutive_batches b xs) = xs"
proof (induction b xs rule: consecutive_batches.induct)
  case (1 b xs)
  then show ?case
    by (subst consecutive_batches.simps) auto
qed

lemma div_add_one: "0 < (b::nat) \<Longrightarrow> (m + b) div b = Suc (m div b)"
  using div_add_self2 [of b m] by simp

lemma length_consecutive_batches:
  "0 < b \<Longrightarrow> length (consecutive_batches b xs) = (length xs + b - 1) div b"
proof (induction b xs rule: consecutive_batches.induct)
  case (1 b xs)
  show ?case
  proof (cases "xs = []")
    case True
    with 1 show ?thesis by (subst consecutive_batches.simps) simp
  next
    case False
    show ?thesis
    proof (cases "length xs \<le> b")
      case True
      with False 1 have "consecutive_batches b xs = [take b xs]"
        by (subst consecutive_batches.simps, subst consecutive_batches.simps) simp
      moreover from True False 1(2) have "(length xs + b - 1) div b = 1"
        by (cases xs) (auto simp: div_add_self2)
      ultimately show ?thesis by simp
    next
      case g: False
      from False 1 have ih: "length (consecutive_batches b (drop b xs))
          = (length (drop b xs) + b - 1) div b"
        by simp
      have unfold: "consecutive_batches b xs = take b xs # consecutive_batches b (drop b xs)"
        using False 1(2) by (subst consecutive_batches.simps) simp
      from g have "length xs + b - 1 = (length (drop b xs) + b - 1) + b" by simp
      then have "(length xs + b - 1) div b = ((length (drop b xs) + b - 1) + b) div b"
        by (rule arg_cong)
      also have "\<dots> = Suc ((length (drop b xs) + b - 1) div b)"
        using 1(2) by (rule div_add_one)
      finally show ?thesis
        using ih unfold by simp
    qed
  qed
qed

lemma size_consecutive_batches:
  "x \<in> set (consecutive_batches b xs) \<Longrightarrow> x \<noteq> [] \<and> length x \<le> b"
proof (induction b xs rule: consecutive_batches.induct)
  case (1 b xs)
  from 1(2) have "b \<noteq> 0 \<and> xs \<noteq> [] \<and>
      (x = take b xs \<or> x \<in> set (consecutive_batches b (drop b xs)))"
    by (subst (asm) consecutive_batches.simps) (auto split: if_splits)
  with 1(1) show ?case by auto
qed

lemma full_consecutive_batches:
  "Suc k < length (consecutive_batches b xs) \<Longrightarrow> length (consecutive_batches b xs ! k) = b"
proof (induction b xs arbitrary: k rule: consecutive_batches.induct)
  case (1 b xs)
  show ?case
  proof (cases "b = 0 \<or> xs = []")
    case True
    with 1(2) show ?thesis by (subst (asm) consecutive_batches.simps) simp
  next
    case False
    then have unfold: "consecutive_batches b xs = take b xs # consecutive_batches b (drop b xs)"
      by (subst consecutive_batches.simps) simp
    show ?thesis
    proof (cases k)
      case 0
      from 1(2) unfold have "consecutive_batches b (drop b xs) \<noteq> []" by auto
      then have "drop b xs \<noteq> []"
        by (subst (asm) consecutive_batches.simps) (auto split: if_splits)
      with unfold 0 show ?thesis by simp
    next
      case (Suc j)
      with 1 False unfold show ?thesis by simp
    qed
  qed
qed

lemma batch_loop_stuck:
  assumes ret: "batch_loop host B D cs i n acc = Some r"
  shows "\<not> (B = Num 0 \<and> i = Num 0 \<and> cs \<noteq> [])"
proof (rule batch_loop.raw_induct
    [where P = "\<lambda>host B D cs i n acc r. \<not> (B = Num 0 \<and> i = Num 0 \<and> cs \<noteq> [])", OF _ ret],
    goal_cases)
  case (1 f host B D cs i n acc r)
  show ?case
  proof (rule notI)
    assume a: "B = Num 0 \<and> i = Num 0 \<and> cs \<noteq> []"
    with 1(2) have call: "f host B D cs (js_add i B) (snd (loop_body host B D cs i n))
        (acc @ [fst (loop_body host B D cs i n)]) = Some r"
      by simp
    have "\<not> (B = Num 0 \<and> js_add i B = Num 0 \<and> cs \<noteq> [])"
      by (rule 1(1) [OF call])
    with a show False by simp
  qed
qed

lemma batch_loop_zero:
  "cs \<noteq> [] \<Longrightarrow> batch_loop host (Num 0) D cs (Num 0) n acc = None"
  using batch_loop_stuck [of host "Num 0" D cs "Num 0" n acc]
  by (cases "batch_loop host (Num 0) D cs (Num 0) n acc") auto

lemma batch_loop_nan:
  "cs \<noteq> [] \<Longrightarrow> batch_loop host NaN D cs (Num 0) n acc =
     Some (acc @ [([], snd (retry_loop host D [] 3 n) @ [Sleep D])])"
  by (subst batch_loop.simps, subst batch_loop.simps)
     (simp add: loop_body_def slice_def rel_index_def Let_def)

section \<open>Delivery: the claims\<close>

text \<open>
  Claim C5 (batch partition). For a positive integer batch size \<open>b\<close> and any comment
  list, \<open>createReviewComment\<close> returns after \<open>\<lceil>M/b\<rceil>\<close> passes of its loop, one batch
  per pass; no batch is empty or longer than \<open>b\<close>, every batch but the last has exactly
  \<open>b\<close> comments, the batches concatenated in order are the comment list, every pass
  submits its batch to the host, and for the empty list nothing happens at all.
\<close>

theorem batch_partition:
  assumes "0 < b"
  shows "\<exists>ps. createReviewComment host (Num (int b)) D cs = Some ps
           \<and> length (batches_of ps) = (length cs + b - 1) div b
           \<and> (\<forall>x \<in> set (batches_of ps). x \<noteq> [] \<and> length x \<le> b)
           \<and> (\<forall>k. Suc k < length (batches_of ps) \<longrightarrow> length (batches_of ps ! k) = b)
           \<and> concat (batches_of ps) = cs
           \<and> (\<forall>p \<in> set ps. CreateReview (fst p) \<in> set (snd p))
           \<and> (cs = [] \<longrightarrow> trace_of ps = [])"
proof -
  let ?ps = "passes_from host b D cs 0 0"
  have run: "createReviewComment host (Num (int b)) D cs = Some ?ps"
    using assms by (rule createReviewComment_passes)
  have bs: "batches_of ?ps = consecutive_batches b cs"
    using passes_from_batches [OF assms, of host D cs 0 0] by (simp add: batches_of_def)
  have len: "length (batches_of ?ps) = (length cs + b - 1) div b"
    using assms by (simp only: bs length_consecutive_batches)
  have sz: "\<forall>x \<in> set (batches_of ?ps). x \<noteq> [] \<and> length x \<le> b"
    using size_consecutive_batches by (simp only: bs) blast
  have full: "\<forall>k. Suc k < length (batches_of ?ps) \<longrightarrow> length (batches_of ?ps ! k) = b"
    using full_consecutive_batches by (simp only: bs) blast
  have cat: "concat (batches_of ?ps) = cs"
    using assms by (simp only: bs concat_consecutive_batches)
  have sub: "\<forall>p \<in> set ?ps. CreateReview (fst p) \<in> set (snd p)"
  proof
    fix p assume "p \<in> set ?ps"
    then obtain j m where p: "p = fst (loop_body host (Num (int b)) D cs (Num (int j)) m)"
      using passes_from_body by blast
    obtain evs where "snd p = CreateReview (fst p) # evs @ [Sleep D]"
      using loop_body_frame [of host "Num (int b)" D cs "Num (int j)" m] p by auto
    then show "CreateReview (fst p) \<in> set (snd p)" by simp
  qed
  have none: "cs = [] \<longrightarrow> trace_of ?ps = []"
    by (subst passes_from.simps) (simp add: trace_of_def)
  from run len sz full cat sub none show ?thesis by blast
qed

text \<open>The example of the design: 13 comments in batches of 5 make 3 batches.\<close>

theorem batch_partition_witness:
  "(0::nat) < 5 \<and>
   (\<exists>ps. createReviewComment (\<lambda>n. True) (Num (int 5)) (Num 2500) (replicate 13 sample_comment)
            = Some ps
      \<and> length (batches_of ps) = 3
      \<and> concat (batches_of ps) = replicate 13 sample_comment)"
proof -
  have h: "(0::nat) < 5" by simp
  show ?thesis
    using h batch_partition [OF h, of "\<lambda>n. True" "Num 2500" "replicate 13 sample_comment"]
    by auto
qed

text \<open>
  Claim C6 (retry exhaustion isolation). For a positive batch size and whatever the host
  answers, the batches attempted are all the batches of the partition, in order; the pass
  of a batch takes one of four courses: success at the first, second or third request, or
  three failed requests, each failure logged with its attempt number, a sleep of \<open>D\<close>
  after the first and the second failure, and the drop logged after the third. When every
  request fails, every batch is still attempted three times and dropped.
\<close>

theorem retry_exhaustion_isolation:
  assumes "0 < b"
  shows "\<exists>ps. createReviewComment host (Num (int b)) D cs = Some ps
           \<and> batches_of ps = consecutive_batches b cs
           \<and> (\<forall>p \<in> set ps.
                 snd p = attempts_1 (fst p) @ [Sleep D]
               \<or> snd p = attempts_2 D (fst p) @ [Sleep D]
               \<or> snd p = attempts_3 D (fst p) @ [Sleep D]
               \<or> snd p = attempts_exhausted D (fst p) @ [Sleep D])
           \<and> ((\<forall>n. \<not> host n) \<longrightarrow>
                 (\<forall>p \<in> set ps. snd p = attempts_exhausted D (fst p) @ [Sleep D]))"
proof -
  let ?ps = "passes_from host b D cs 0 0"
  have run: "createReviewComment host (Num (int b)) D cs = Some ?ps"
    using assms by (rule createReviewComment_passes)
  have bs: "batches_of ?ps = consecutive_batches b cs"
    using passes_from_batches [OF assms, of host D cs 0 0] by (simp add: batches_of_def)
  have shape: "\<forall>p \<in> set ?ps.
                 snd p = attempts_1 (fst p) @ [Sleep D]
               \<or> snd p = attempts_2 D (fst p) @ [Sleep D]
               \<or> snd p = attempts_3 D (fst p) @ [Sleep D]
               \<or> snd p = attempts_exhausted D (fst p) @ [Sleep D]"
  proof
    fix p assume "p \<in> set ?ps"
    then obtain j m where p: "p = fst (loop_body host (Num (int b)) D cs (Num (int j)) m)"
      using passes_from_body by blast
    show "snd p = attempts_1 (fst p) @ [Sleep D]
               \<or> snd p = attempts_2 D (fst p) @ [Sleep D]
               \<or> snd p = attempts_3 D (fst p) @ [Sleep D]
               \<or> snd p = attempts_exhausted D (fst p) @ [Sleep D]"
      using loop_body_events [of host "Num (int b)" D cs "Num (int j)" m] unfolding p by blast
  qed
  have down: "(\<forall>n. \<not> host n) \<longrightarrow>
                 (\<forall>p \<in> set ?ps. snd p = attempts_exhausted D (fst p) @ [Sleep D])"
  proof (intro impI ballI)
    fix p assume h: "\<forall>n. \<not> host n" and "p \<in> set ?ps"
    then obtain j m where p: "p = fst (loop_body host (Num (int b)) D cs (Num (int j)) m)"
      using passes_from_body by blast
    show "snd p = attempts_exhausted D (fst p) @ [Sleep D]"
      unfolding p by (rule loop_body_exhausted [OF h])
  qed
  from run bs shape down show ?thesis by blast
qed

text \<open>Two batches against a host that always fails: both are attempted and dropped.\<close>

theorem retry_exhaustion_isolation_witness:
  "(0::nat) < 1 \<and>
   createReviewComment (\<lambda>n. False) (Num (int 1)) (Num 2500) [sample_comment, sample_comment]
     = Some [([sample_comment], attempts_exhausted (Num 2500) [sample_comment] @ [Sleep (Num 2500)]),
             ([sample_comment], attempts_exhausted (Num 2500) [sample_comment] @ [Sleep (Num 2500)])]"
proof -
  have h: "(0::nat) < 1" by simp
  obtain ps where ps: "createReviewComment (\<lambda>n. False) (Num (int 1)) (Num 2500)
        [sample_comment, sample_comment] = Some ps"
      and bs: "batches_of ps = consecutive_batches 1 [sample_comment, sample_comment]"
      and ex: "\<forall>p \<in> set ps. snd p = attempts_exhausted (Num 2500) (fst p) @ [Sleep (Num 2500)]"
    using retry_exhaustion_isolation [OF h, of "\<lambda>n. False" "Num 2500"
        "[sample_comment, sample_comment]"] by auto
  have "consecutive_batches 1 [sample_comment, sample_comment] = [[sample_comment], [sample_comment]]"
    by (simp add: consecutive_batches.simps)
  with bs have "map fst ps = [[sample_comment], [sample_comment]]"
    by (simp add: batches_of_def)
  then obtain p q where pq: "ps = [p, q]" "fst p = [sample_comment]" "fst q = [sample_comment]"
    by auto
  with ex have "p = ([sample_comment], attempts_exhausted (Num 2500) [sample_comment] @ [Sleep (Num 2500)])"
    "q = ([sample_comment], attempts_exhausted (Num 2500) [sample_comment] @ [Sleep (Num 2500)])"
    by (auto simp: prod_eq_iff)
  with ps pq h show ?thesis by simp
qed

text \<open>
  Claim C7 (pacing). The events of every pass start with the submission of its batch and end
  with a sleep of \<open>D\<close>; the trace is the concatenation of the passes, so a sleep of
  \<open>D\<close> lies between the last request of one batch and the first request of the
  next, and the trace of a non-empty delivery ends with a sleep of \<open>D\<close>.
\<close>

theorem pacing:
  assumes "0 < b"
  shows "\<exists>ps. createReviewComment host (Num (int b)) D cs = Some ps
           \<and> (\<forall>p \<in> set ps. \<exists>evs. snd p = CreateReview (fst p) # evs @ [Sleep D])
           \<and> (cs \<noteq> [] \<longrightarrow> trace_of ps \<noteq> [] \<and> last (trace_of ps) = Sleep D)"
proof -
  let ?ps = "passes_from host b D cs 0 0"
  have run: "createReviewComment host (Num (int b)) D cs = Some ?ps"
    using assms by (rule createReviewComment_passes)
  have frame: "\<forall>p \<in> set ?ps. \<exists>evs. snd p = CreateReview (fst p) # evs @ [Sleep D]"
  proof
    fix p assume "p \<in> set ?ps"
    then obtain j m where p: "p = fst (loop_body host (Num (int b)) D cs (Num (int j)) m)"
      using passes_from_body by blast
    show "\<exists>evs. snd p = CreateReview (fst p) # evs @ [Sleep D]"
      unfolding p by (rule loop_body_frame)
  qed
  have trail: "cs \<noteq> [] \<longrightarrow> trace_of ?ps \<noteq> [] \<and> last (trace_of ?ps) = Sleep D"
  proof
    assume ne: "cs \<noteq> []"
    with assms have "?ps \<noteq> []" by (subst passes_from.simps) simp
    then obtain qs q where split: "?ps = qs @ [q]"
      by (metis rev_exhaust)
    then have "q \<in> set ?ps" by simp
    with frame obtain evs where q: "snd q = CreateReview (fst q) # evs @ [Sleep D]" by blast
    have "trace_of ?ps = concat (map snd qs) @ CreateReview (fst q) # evs @ [Sleep D]"
      by (simp only: split trace_of_def) (simp add: q)
    then show "trace_of ?ps \<noteq> [] \<and> last (trace_of ?ps) = Sleep D" by simp
  qed
  from run frame trail show ?thesis by blast
qed

text \<open>One comment, sent at once: the run still ends with the sleep.\<close>

theorem pacing_witness:
  "(0::nat) < 5 \<and>
   (\<exists>ps. createReviewComment (\<lambda>n. True) (Num (int 5)) (Num 2500) [sample_comment] = Some ps
      \<and> last (trace_of ps) = Sleep (Num 2500))"
proof -
  have h: "(0::nat) < 5" by simp
  have ne: "[sample_comment] \<noteq> []" by simp
  show ?thesis
    using h ne pacing [OF h, of "\<lambda>n. True" "Num 2500" "[sample_comment]"] by blast
qed

text \<open>
  Claim C10 (termination of the delivery loop). With a positive integer batch size the
  loop returns. With batch size 0 and at least one comment it never returns. With a batch
  size that is not a number and at least one comment it makes exactly one pass, whose
  batch is the empty slice.
\<close>

theorem delivery_termination:
  "(0 < b \<longrightarrow> (\<exists>ps. createReviewComment host (Num (int b)) D cs = Some ps))
   \<and> (cs \<noteq> [] \<longrightarrow> createReviewComment host (Num 0) D cs = None)
   \<and> (cs \<noteq> [] \<longrightarrow>
        createReviewComment host NaN D cs
          = Some [([], snd (retry_loop host D [] 3 0) @ [Sleep D])])"
proof (intro conjI impI)
  assume "0 < b"
  then show "\<exists>ps. createReviewComment host (Num (int b)) D cs = Some ps"
    using createReviewComment_passes by blast
next
  assume "cs \<noteq> []"
  then show "createReviewComment host (Num 0) D cs = None"
    by (simp add: createReviewComment_def batch_loop_zero)
next
  assume "cs \<noteq> []"
  then show "createReviewComment host NaN D cs
          = Some [([], snd (retry_loop host D [] 3 0) @ [Sleep D])]"
    by (simp add: createReviewComment_def batch_loop_nan)
qed

text \<open>The three cases on a list of one comment and a host that accepts.\<close>

theorem delivery_termination_witness:
  "(0::nat) < 5 \<and> [sample_comment] \<noteq> []
   \<and> (\<exists>ps. createReviewComment (\<lambda>n. True) (Num (int 5)) (Num 2500) [sample_comment] = Some ps)
   \<and> createReviewComment (\<lambda>n. True) (Num 0) (Num 2500) [sample_comment] = None
   \<and> createReviewComment (\<lambda>n. True) NaN (Num 2500) [sample_comment]
        = Some [([], [CreateReview [], LogSent [], Sleep (Num 2500)])]"
proof -
  have h: "(0::nat) < 5" by simp
  have ne: "[sample_comment] \<noteq> []" by simp
  have r: "snd (retry_loop (\<lambda>n. True) (Num 2500) [] 3 0) = [CreateReview [], LogSent []]"
    by (simp add: numeral_3_eq_3)
  show ?thesis
    using h ne r delivery_termination [of 5 "\<lambda>n. True" "Num 2500" "[sample_comment]"]
    by simp
qed

section \<open>Exit status\<close>

text \<open>
  When every answer of the model is recoverable, \<open>analyzeCode\<close> throws nothing.
\<close>

lemma well_formed_candidate_safe:
  assumes "well_formed_candidate x"
  shows "x \<noteq> JNull \<and> x \<noteq> Undefined \<and> stringifies x \<and> stringifies (property x ''lineNumber'')"
proof (cases x)
  case (JObj kvs)
  with assms show ?thesis
    by (auto simp: well_formed_candidate_def property_def split: option.splits jsval.splits)
qed (use assms in \<open>simp_all add: well_formed_candidate_def\<close>)

lemma createComment_well_formed:
  assumes "list_all well_formed_candidate rs"
  shows "\<exists>cs. createComment coerce f chunk (JArr rs) = Inr cs"
proof (cases "no_path f")
  case True
  have "flatMap (comment_of coerce f) rs = Inr []"
    by (induction rs) (simp_all add: comment_of_def True)
  then show ?thesis by (simp add: createComment_def)
next
  case False
  from assms have "\<forall>x \<in> set rs. x \<noteq> JNull \<and> x \<noteq> Undefined
      \<and> stringifies (property x ''lineNumber'')"
    using well_formed_candidate_safe by (auto simp: list_all_iff)
  with False show ?thesis
    by (simp add: createComment_def flatMap_comment_of)
qed

lemma analyze_chunk_recoverable:
  assumes "recoverable_answer JSON_parse (model (calls st))"
  shows "\<exists>st'. analyze_chunk JSON_parse coerce model f chunk st = Inr st'"
proof (cases "fst (getAIResponse JSON_parse (model (calls st)))")
  case (JArr rs)
  with assms have wf: "list_all well_formed_candidate rs"
    by (simp add: recoverable_answer_def)
  then have "stringifies (JArr rs)"
    using well_formed_candidate_safe by (auto simp: list_all_iff)
  moreover obtain cs where "createComment coerce f chunk (JArr rs) = Inr cs"
    using createComment_well_formed [OF wf] by blast
  ultimately show ?thesis
    using JArr by (simp add: analyze_chunk_def Let_def)
qed (use assms in \<open>simp_all add: recoverable_answer_def analyze_chunk_def Let_def\<close>)

lemma analyze_chunks_recoverable:
  assumes "\<forall>k. recoverable_answer JSON_parse (model k)"
  shows "\<exists>st'. analyze_chunks JSON_parse coerce model f cs st = Inr st'"
proof (induction cs arbitrary: st)
  case Nil
  show ?case by simp
next
  case (Cons c cs)
  obtain st1 where "analyze_chunk JSON_parse coerce model f c st = Inr st1"
    using analyze_chunk_recoverable assms by blast
  with Cons [of st1] show ?case by simp
qed

lemma analyze_files_recoverable:
  assumes "\<forall>k. recoverable_answer JSON_parse (model k)"
  shows "\<exists>st'. analyze_files JSON_parse coerce model fs st = Inr st'"
proof (induction fs arbitrary: st)
  case Nil
  show ?case by simp
next
  case (Cons f fs)
  obtain st1 where "analyze_chunks JSON_parse coerce model f (chunks f) st = Inr st1"
    using analyze_chunks_recoverable [OF assms] by blast
  with Cons [of st] Cons [of st1] show ?case by simp
qed

lemma main_analysed:
  assumes "event_action r = Some a" and "pr_details r" and "fetch_diff r a = Diff (Some d)"
    and "d \<noteq> []"
    and "analyzeCode (parse_json r) (to_number r) (openai r) (filteredDiff r (parseDiff r d))
           = Inr st"
  shows "main r =
     (if 0 < length (collected st)
      then (case createReviewComment (octokit r) (BATCH_SIZE r) (DELAY_BETWEEN_BATCHES r)
                   (collected st) of
              None \<Rightarrow> None
            | Some passes \<Rightarrow> Some (0, trace st @ trace_of passes))
      else Some (0, trace st))"
  using assms by (simp add: main_def)

text \<open>
  Claim C4 as the code has it. An unreadable event payload, a failure of
  \<open>getPRDetails\<close> and an exception while fetching the diff end the process with exit
  status 1 after the error is logged. An event action other than \<open>opened\<close> and
  \<open>synchronize\<close>, and a diff that is \<open>null\<close> or empty, are logged and \<open>main\<close>
  returns: the exit status is 0. A run that gets past these checks and in which only
  recoverable conditions occur (every answer of the model is a parse failure or a list of
  well-formed candidates, whatever lines they cite, and the host may reject any request)
  never ends with another status than 0, and it does end, with status 0, for every positive
  integer batch size.
\<close>

theorem exit_status:
  "(event_action r = None \<longrightarrow> main r = Some (1, [LogFatal]))
   \<and> (\<forall>a. event_action r = Some a \<and> \<not> pr_details r \<longrightarrow> main r = Some (1, [LogFatal]))
   \<and> (\<forall>a. event_action r = Some a \<and> pr_details r \<and> fetch_diff r a = Threw \<longrightarrow>
          main r = Some (1, [LogFatal]))
   \<and> (\<forall>a. event_action r = Some a \<and> pr_details r
            \<and> a \<noteq> JStr ''opened'' \<and> a \<noteq> JStr ''synchronize'' \<longrightarrow>
          main r = Some (0, [LogUnsupported]))
   \<and> (\<forall>a d. event_action r = Some a \<and> pr_details r \<and> fetch_diff r a = Diff d
            \<and> (d = None \<or> d = Some []) \<longrightarrow>
          main r = Some (0, [LogNoDiff]))
   \<and> (\<forall>a d. event_action r = Some a \<and> pr_details r \<and> fetch_diff r a = Diff (Some d)
            \<and> d \<noteq> [] \<and> (\<forall>k. recoverable_answer (parse_json r) (openai r k)) \<longrightarrow>
          (main r = None \<or> (\<exists>tr. main r = Some (0, tr)))
          \<and> (\<forall>b. BATCH_SIZE r = Num (int b) \<and> 0 < b \<longrightarrow> (\<exists>tr. main r = Some (0, tr))))"
proof (intro conjI)
  show "event_action r = None \<longrightarrow> main r = Some (1, [LogFatal])"
    by (simp add: main_def)
next
  show "\<forall>a. event_action r = Some a \<and> \<not> pr_details r \<longrightarrow> main r = Some (1, [LogFatal])"
    by (simp add: main_def)
next
  show "\<forall>a. event_action r = Some a \<and> pr_details r \<and> fetch_diff r a = Threw \<longrightarrow>
          main r = Some (1, [LogFatal])"
    by (simp add: main_def)
next
  show "\<forall>a. event_action r = Some a \<and> pr_details r
            \<and> a \<noteq> JStr ''opened'' \<and> a \<noteq> JStr ''synchronize'' \<longrightarrow>
          main r = Some (0, [LogUnsupported])"
    by (simp add: main_def fetch_diff_def)
next
  show "\<forall>a d. event_action r = Some a \<and> pr_details r \<and> fetch_diff r a = Diff d
            \<and> (d = None \<or> d = Some []) \<longrightarrow>
          main r = Some (0, [LogNoDiff])"
    by (auto simp: main_def)
next
  show "\<forall>a d. event_action r = Some a \<and> pr_details r \<and> fetch_diff r a = Diff (Some d)
            \<and> d \<noteq> [] \<and> (\<forall>k. recoverable_answer (parse_json r) (openai r k)) \<longrightarrow>
          (main r = None \<or> (\<exists>tr. main r = Some (0, tr)))
          \<and> (\<forall>b. BATCH_SIZE r = Num (int b) \<and> 0 < b \<longrightarrow> (\<exists>tr. main r = Some (0, tr)))"
  proof (intro allI impI)
    fix a d
    assume h: "event_action r = Some a \<and> pr_details r \<and> fetch_diff r a = Diff (Some d)
            \<and> d \<noteq> [] \<and> (\<forall>k. recoverable_answer (parse_json r) (openai r k))"
    then obtain st where
      "analyzeCode (parse_json r) (to_number r) (openai r) (filteredDiff r (parseDiff r d))
         = Inr st"
      using analyze_files_recoverable [of "parse_json r" "openai r"]
      unfolding analyzeCode_def by blast
    with h have m: "main r =
       (if 0 < length (collected st)
        then (case createReviewComment (octokit r) (BATCH_SIZE r) (DELAY_BETWEEN_BATCHES r)
                     (collected st) of
                None \<Rightarrow> None
              | Some passes \<Rightarrow> Some (0, trace st @ trace_of passes))
        else Some (0, trace st))"
      by (simp add: main_analysed)
    have any: "main r = None \<or> (\<exists>tr. main r = Some (0, tr))"
      unfolding m by (simp split: option.splits)
    have pos: "\<forall>b. BATCH_SIZE r = Num (int b) \<and> 0 < b \<longrightarrow> (\<exists>tr. main r = Some (0, tr))"
      unfolding m by (auto simp: createReviewComment_passes)
    from any pos show "(main r = None \<or> (\<exists>tr. main r = Some (0, tr)))
          \<and> (\<forall>b. BATCH_SIZE r = Num (int b) \<and> 0 < b \<longrightarrow> (\<exists>tr. main r = Some (0, tr)))"
      by (rule conjI)
  qed
qed

text \<open>
  Claim C4 as stated fails: a run on a \<open>closed\<close> event and a run whose diff is empty both
  end with exit status 0.
\<close>

theorem exit_status_counterexample:
  "main closed_run = Some (0, [LogUnsupported]) \<and> main empty_diff_run = Some (0, [LogNoDiff])"
  by (simp add: main_def closed_run_def empty_diff_run_def sample_run_def fetch_diff_def)

text \<open>
  A whole run, end to end: the example answer, one of whose candidates cites a line outside
  the hunk, against a host that rejects every request. Both comments are submitted three
  times, the batch is dropped, and the exit status is 0. With batch size 0 the same run
  never ends.
\<close>

lemma filteredDiff_sample:
  assumes "include_input r = ''**/*.ts''" and "minimatch r = sample_minimatch"
  shows "filteredDiff r (sample_parseDiff d) = [sample_file]"
  using assms
  by (simp add: filteredDiff_def includePatterns_def sample_parseDiff_def trim_def
      is_white_def sample_minimatch_def path_or_empty_def sample_file_def)

lemma trim_sample_answer: "trim sample_answer = sample_answer"
  by (simp add: trim_def is_white_def sample_answer_def)

lemma getAIResponse_sample: "getAIResponse sample_parse (model_sample k) = (sample_reviews, [])"
  by (simp add: getAIResponse_def model_sample_def trim_sample_answer sample_parse_def)
     (simp add: sample_answer_def)

lemma analyzeCode_sample:
  "analyzeCode sample_parse sample_coerce model_sample [sample_file]
     = Inr \<lparr>collected =
              [\<lparr>body = JStr ''Use a constant here.'', path = ''src/app.ts'', line = Num 10\<rparr>,
               \<lparr>body = JStr ''x'', path = ''src/app.ts'', line = Num 99\<rparr>],
            trace = [BuildPrompt sample_file sample_chunk], calls = 1\<rparr>"
proof -
  have "analyze_chunk sample_parse sample_coerce model_sample sample_file sample_chunk start
       = Inr \<lparr>collected =
                [\<lparr>body = JStr ''Use a constant here.'', path = ''src/app.ts'', line = Num 10\<rparr>,
                 \<lparr>body = JStr ''x'', path = ''src/app.ts'', line = Num 99\<rparr>],
              trace = [BuildPrompt sample_file sample_chunk], calls = 1\<rparr>"
    by (simp add: analyze_chunk_def Let_def getAIResponse_sample start_def createComment_def
        sample_reviews_def comment_of_def no_path_def path_or_empty_def sample_file_def)
  then show ?thesis
    by (simp add: analyzeCode_def start_def) (simp add: sample_file_def)
qed

lemma main_reviewed_run:
  "main reviewed_run =
     Some (0, BuildPrompt sample_file sample_chunk
              # attempts_exhausted (Num 2500)
                  [\<lparr>body = JStr ''Use a constant here.'', path = ''src/app.ts'', line = Num 10\<rparr>,
                   \<lparr>body = JStr ''x'', path = ''src/app.ts'', line = Num 99\<rparr>]
              @ [Sleep (Num 2500)])"
proof -
  have five: "Num 5 = Num (int 5)" by simp
  have "createReviewComment (\<lambda>n. False) (Num 5) (Num 2500)
          [\<lparr>body = JStr ''Use a constant here.'', path = ''src/app.ts'', line = Num 10\<rparr>,
           \<lparr>body = JStr ''x'', path = ''src/app.ts'', line = Num 99\<rparr>]
        = Some [([\<lparr>body = JStr ''Use a constant here.'', path = ''src/app.ts'', line = Num 10\<rparr>,
                  \<lparr>body = JStr ''x'', path = ''src/app.ts'', line = Num 99\<rparr>],
                 attempts_exhausted (Num 2500)
                  [\<lparr>body = JStr ''Use a constant here.'', path = ''src/app.ts'', line = Num 10\<rparr>,
                   \<lparr>body = JStr ''x'', path = ''src/app.ts'', line = Num 99\<rparr>]
                 @ [Sleep (Num 2500)])]"
    by (subst five, subst createReviewComment_passes)
       (simp_all add: passes_from.simps loop_body_def Let_def retry_loop_3 slice_def rel_index_def)
  then show ?thesis
    by (simp add: main_def reviewed_run_def sample_run_def fetch_diff_def
        filteredDiff_sample analyzeCode_sample trace_of_def)
qed

lemma main_stuck_run: "main stuck_run = None"
proof -
  have "createReviewComment (\<lambda>n. False) (Num 0) (Num 2500)
          [\<lparr>body = JStr ''Use a constant here.'', path = ''src/app.ts'', line = Num 10\<rparr>,
           \<lparr>body = JStr ''x'', path = ''src/app.ts'', line = Num 99\<rparr>] = None"
    by (simp add: createReviewComment_def batch_loop_zero)
  then show ?thesis
    by (simp add: main_def stuck_run_def reviewed_run_def sample_run_def fetch_diff_def
        filteredDiff_sample analyzeCode_sample)
qed

text \<open>
  An unreadable payload, a \<open>closed\<close> event, and the run above whose only batch is
  dropped.
\<close>

theorem exit_status_witness:
  "main unreadable_run = Some (1, [LogFatal])
   \<and> main closed_run = Some (0, [LogUnsupported])
   \<and> recoverable_answer (parse_json reviewed_run) (openai reviewed_run 0)
   \<and> BATCH_SIZE reviewed_run = Num (int 5)
   \<and> (\<exists>tr. main reviewed_run = Some (0, tr))"
proof -
  have u: "event_action unreadable_run = None"
    by (simp add: unreadable_run_def)
  have c: "event_action closed_run = Some (JStr ''closed'') \<and> pr_details closed_run
            \<and> JStr ''closed'' \<noteq> JStr ''opened'' \<and> JStr ''closed'' \<noteq> JStr ''synchronize''"
    by (simp add: closed_run_def sample_run_def)
  have k: "recoverable_answer (parse_json reviewed_run) (openai reviewed_run k)" for k
    by (simp add: reviewed_run_def sample_run_def recoverable_answer_def getAIResponse_sample)
       (simp add: sample_reviews_def well_formed_candidate_def)
  have r: "event_action reviewed_run = Some (JStr ''opened'') \<and> pr_details reviewed_run
      \<and> fetch_diff reviewed_run (JStr ''opened'')
            = Diff (Some ''diff --git a/src/app.ts b/src/app.ts'')
      \<and> ''diff --git a/src/app.ts b/src/app.ts'' \<noteq> []
      \<and> (\<forall>k. recoverable_answer (parse_json reviewed_run) (openai reviewed_run k))"
    using k by (simp add: reviewed_run_def sample_run_def fetch_diff_def)
  have b: "BATCH_SIZE reviewed_run = Num (int 5) \<and> (0::nat) < 5"
    by (simp add: reviewed_run_def sample_run_def)
  have "\<exists>tr. main reviewed_run = Some (0, tr)"
    using exit_status [of reviewed_run] r b by blast
  then show ?thesis
    using u c k [of 0] b exit_status [of unreadable_run] exit_status [of closed_run] by blast
qed

end
